theory Spec2Isabelle
  imports Complex_Main "HOL-Library.Word" "HOL-Library.Log_Nat"
begin

unbundle bit_operations_syntax

section \<open>Buffers, errors and little-endian integers (src/src/utils.js)\<close>

text \<open>
  A Node \<open>Buffer\<close> is a list of bytes. JavaScript numbers that the code uses as integers
  are \<open>int\<close>; offsets and sizes, which the code only ever counts upwards from 0, are
  \<open>nat\<close>. A \<open>throw\<close> is the \<open>Inl\<close> branch of a sum; the constructors of \<open>error\<close> stand
  for the \<open>Error\<close> objects of the source, carrying the values that the source puts in
  the message or in the properties of the object.
\<close>

type_synonym byte = "8 word"
type_synonym buffer = "byte list"

datatype error =
    RangeError                  \<comment> \<open>Node's ERR_OUT_OF_RANGE of a Buffer read or write\<close>
  | TypeError                   \<comment> \<open>a TypeError of the runtime\<close>
  | SegmentNameTooLong string   \<comment> \<open>\<open>Segment name too long: ${segment}\<close>\<close>
  | CIPPathTooLong nat          \<comment> \<open>\<open>CIP path too long: ${pathSize} words (max 255)\<close>\<close>
  | UnsupportedDataType int     \<comment> \<open>\<open>Unsupported data type: 0x${dataType.toString(16)}\<close>\<close>
  | UnexpectedCommand int       \<comment> \<open>\<open>Unexpected command: 0x...\<close>\<close>
  | EIPStatusError int          \<comment> \<open>\<open>EIP Status error: ...\<close>, with \<open>error.statusCode\<close>\<close>
  | CIPStatusError int          \<comment> \<open>\<open>CIP Status error: 0x${cipStatus.toString(16)}\<close>\<close>
  | InvalidReadTagResponse      \<comment> \<open>\<open>Invalid Read Tag response: insufficient data\<close>\<close>
  | CIPErrorReadingTag int      \<comment> \<open>\<open>CIP error reading tag: 0x...\<close>\<close>
  | CIPErrorWritingTag int      \<comment> \<open>\<open>CIP error writing tag: 0x...\<close>\<close>
  | CannotInferDataType         \<comment> \<open>\<open>Cannot infer data type for value: ${value}\<close>\<close>
  | NotConnected                \<comment> \<open>\<open>Not connected\<close> (EIPConnection.sendRequest)\<close>
  | NotConnectedToPLC           \<comment> \<open>\<open>Not connected to PLC\<close> (EthernetIPDriver)\<close>
  | RequestTimeout              \<comment> \<open>\<open>Request timeout\<close>\<close>
  | SocketError                 \<comment> \<open>an error reported by the socket\<close>

definition bindE :: "error + 'a \<Rightarrow> ('a \<Rightarrow> error + 'b) \<Rightarrow> error + 'b" where
  "bindE r f = (case r of Inl e \<Rightarrow> Inl e | Inr x \<Rightarrow> f x)"

text \<open>\<open>buffer[i]\<close>: the byte, or \<open>undefined\<close> (here \<open>None\<close>) beyond the end.\<close>

definition buf_get :: "buffer \<Rightarrow> nat \<Rightarrow> byte option" where
  "buf_get buffer i = (if i < length buffer then Some (buffer ! i) else None)"

text \<open>\<open>buffer.slice(start, end)\<close> for non-negative bounds: clamped to the buffer, empty
  when \<open>end \<le> start\<close>.\<close>

definition buf_slice :: "buffer \<Rightarrow> nat \<Rightarrow> nat \<Rightarrow> buffer" where
  "buf_slice buffer start end = take (end - start) (drop start buffer)"

text \<open>\<open>src.copy(target, pos)\<close>: overwrites \<open>target\<close> from \<open>pos\<close> on with as many bytes
  of \<open>src\<close> as fit; the result is the new content of \<open>target\<close>.\<close>

definition buf_copy :: "buffer \<Rightarrow> buffer \<Rightarrow> nat \<Rightarrow> buffer" where
  "buf_copy src target pos =
     take pos target @ take (length target - pos) src @ drop (pos + length src) target"

text \<open>The bytes of an integer, least significant first, and the value of such bytes.\<close>

fun le_bytes :: "nat \<Rightarrow> int \<Rightarrow> buffer" where
  "le_bytes 0 v = []"
| "le_bytes (Suc n) v = word_of_int v # le_bytes n (v div 256)"

fun le_value :: "buffer \<Rightarrow> int" where
  "le_value [] = 0"
| "le_value (b # bs) = uint b + 256 * le_value bs"

text \<open>\<open>buffer.writeUIntNLE(value, 0)\<close> on a fresh buffer of \<open>n\<close> bytes and
  \<open>buffer.readUIntNLE(offset)\<close>. Node throws when the value does not fit or when the
  read would run over the end of the buffer.\<close>

definition writeUIntLE :: "nat \<Rightarrow> int \<Rightarrow> error + buffer" where
  "writeUIntLE n v = (if 0 \<le> v \<and> v < 256 ^ n then Inr (le_bytes n v) else Inl RangeError)"

definition readUIntLE :: "nat \<Rightarrow> buffer \<Rightarrow> nat \<Rightarrow> error + int" where
  "readUIntLE n buffer offset =
     (if offset + n \<le> length buffer then Inr (le_value (buf_slice buffer offset (offset + n)))
      else Inl RangeError)"

text \<open>The signed variants: two's complement on \<open>n\<close> bytes.\<close>

definition writeIntLE :: "nat \<Rightarrow> int \<Rightarrow> error + buffer" where
  "writeIntLE n v =
     (if - (256 ^ n div 2) \<le> v \<and> v < 256 ^ n div 2 then Inr (le_bytes n v) else Inl RangeError)"

definition readIntLE :: "nat \<Rightarrow> buffer \<Rightarrow> nat \<Rightarrow> error + int" where
  "readIntLE n buffer offset =
     (if offset + n \<le> length buffer
      then (let u = le_value (buf_slice buffer offset (offset + n))
            in Inr (if u \<ge> 256 ^ n div 2 then u - 256 ^ n else u))
      else Inl RangeError)"

definition toUInt16LE :: "int \<Rightarrow> error + buffer" where
  "toUInt16LE v = writeUIntLE 2 v"

definition toUInt32LE :: "int \<Rightarrow> error + buffer" where
  "toUInt32LE v = writeUIntLE 4 v"

definition fromUInt16LE :: "buffer \<Rightarrow> nat \<Rightarrow> error + int" where
  "fromUInt16LE buffer offset = readUIntLE 2 buffer offset"

definition fromUInt32LE :: "buffer \<Rightarrow> nat \<Rightarrow> error + int" where
  "fromUInt32LE buffer offset = readUIntLE 4 buffer offset"

section \<open>The encapsulation header (src/src/message.js)\<close>

record eip_header =
  hdr_command :: int
  hdr_length :: int
  hdr_sessionHandle :: int
  hdr_status :: int
  hdr_senderContext :: buffer
  hdr_options :: int

text \<open>\<open>buildEIPHeader\<close>: six fields copied into 24 zero bytes. The default arguments of
  the source (\<open>sessionHandle = 0\<close>, \<open>status = 0\<close>, eight zero bytes of context,
  \<open>options = 0\<close>) are passed by the caller.\<close>

definition buildEIPHeader :: "int \<Rightarrow> int \<Rightarrow> int \<Rightarrow> int \<Rightarrow> buffer \<Rightarrow> int \<Rightarrow> error + buffer" where
  "buildEIPHeader command len sessionHandle status senderContext options =
     bindE (toUInt16LE command) (\<lambda>c.
     bindE (toUInt16LE len) (\<lambda>l.
     bindE (toUInt32LE sessionHandle) (\<lambda>s.
     bindE (toUInt32LE status) (\<lambda>st.
     bindE (toUInt32LE options) (\<lambda>opt.
       Inr (buf_copy opt
             (buf_copy senderContext
               (buf_copy st
                 (buf_copy s
                   (buf_copy l
                     (buf_copy c (replicate 24 0) 0) 2) 4) 8) 12) 20))))))"

definition parseEIPHeader :: "buffer \<Rightarrow> error + eip_header" where
  "parseEIPHeader buffer =
     bindE (fromUInt16LE buffer 0) (\<lambda>command.
     bindE (fromUInt16LE buffer 2) (\<lambda>len.
     bindE (fromUInt32LE buffer 4) (\<lambda>sessionHandle.
     bindE (fromUInt32LE buffer 8) (\<lambda>status.
     bindE (fromUInt32LE buffer 20) (\<lambda>options.
       Inr \<lparr> hdr_command = command, hdr_length = len, hdr_sessionHandle = sessionHandle,
             hdr_status = status, hdr_senderContext = buf_slice buffer 12 20,
             hdr_options = options \<rparr>)))))"

section \<open>Strings and CIP paths (src/src/utils.js)\<close>

text \<open>
  A JavaScript string is modelled as an Isabelle string, a list of characters with
  codes 0 to 255, so \<open>segment.length\<close> is the length of the list. Writing a string with
  the \<open>'ascii'\<close> encoding stores the low eight bits of each code; reading bytes with
  \<open>toString('ascii', ...)\<close> clears the top bit of each byte.
\<close>

definition byte_of_char :: "char \<Rightarrow> byte" where
  "byte_of_char c = of_nat (of_char c)"

definition char_of_byte :: "byte \<Rightarrow> char" where
  "char_of_byte b = char_of (unat (b AND 0x7F))"

definition is_ascii :: "char \<Rightarrow> bool" where
  "is_ascii c = (of_char c < (128 :: nat))"

text \<open>\<open>buffer.toString('ascii', start, end)\<close> for non-negative integer bounds.\<close>

definition toString_ascii :: "buffer \<Rightarrow> nat \<Rightarrow> nat \<Rightarrow> string" where
  "toString_ascii buffer start end = map char_of_byte (buf_slice buffer start end)"

text \<open>\<open>tagName.split('.')\<close>: the components between the dots, at least one.\<close>

fun split_dot :: "string \<Rightarrow> string list" where
  "split_dot [] = [[]]"
| "split_dot (c # cs) =
     (if c = CHR ''.'' then [] # split_dot cs
      else (case split_dot cs of [] \<Rightarrow> [[c]] | x # xs \<Rightarrow> (c # x) # xs))"

definition buildMessageRouterPath :: buffer where
  "buildMessageRouterPath = [0x20, 0x02, 0x24, 0x00]"

definition buildMessageRouterPathCompact :: buffer where
  "buildMessageRouterPathCompact = [0x01, 0x00]"

text \<open>The segment that the loop of \<open>buildPath\<close> allocates and fills: \<open>0x91\<close>, the length
  byte (the store into the buffer keeps the low eight bits), the name.\<close>

definition symbolic_segment :: "string \<Rightarrow> buffer" where
  "symbolic_segment segment = [0x91, of_nat (length segment)] @ map byte_of_char segment"

text \<open>The \<open>for\<close> loop of \<open>buildPath\<close> (and of \<open>buildPathStandard\<close>, which has the same
  body), from the path built so far.\<close>

fun buildPath_loop :: "buffer \<Rightarrow> string list \<Rightarrow> error + buffer" where
  "buildPath_loop path [] = Inr path"
| "buildPath_loop path (segment # rest) =
     (if length segment > 255 then Inl (SegmentNameTooLong segment)
      else buildPath_loop (path @ symbolic_segment segment) rest)"

definition buildPath :: "string \<Rightarrow> bool \<Rightarrow> bool \<Rightarrow> error + buffer" where
  "buildPath tagName includeMessageRouter useCompactRouter =
     buildPath_loop
       (if includeMessageRouter
        then (if useCompactRouter then buildMessageRouterPathCompact else buildMessageRouterPath)
        else [])
       (split_dot tagName)"

fun buildPath16Bit_loop :: "buffer \<Rightarrow> string list \<Rightarrow> error + buffer" where
  "buildPath16Bit_loop path [] = Inr path"
| "buildPath16Bit_loop path (segment # rest) =
     bindE (toUInt16LE (int (length segment))) (\<lambda>l.
       buildPath16Bit_loop (path @ [0x92] @ l @ map byte_of_char segment) rest)"

definition buildPath16Bit :: "string \<Rightarrow> error + buffer" where
  "buildPath16Bit tagName = buildPath16Bit_loop [] (split_dot tagName)"

definition buildPathStandard :: "string \<Rightarrow> error + buffer" where
  "buildPathStandard tagName = buildPath_loop [] (split_dot tagName)"

definition buildPathSymbolic :: "string \<Rightarrow> error + buffer" where
  "buildPathSymbolic tagName = buildPath tagName False False"

text \<open>
  \<open>parsePath\<close>. A segment is \<open>{type: 'logical', port}\<close>, \<open>{type: 'symbolic', name}\<close> or
  \<open>{type: 'data', data}\<close>; a port read beyond the buffer with \<open>buffer[pos + 1]\<close> is
  \<open>undefined\<close>. The \<open>while\<close> loop need not end: a first byte with high nibble 0 and low
  nibble above 2 matches no inner branch and leaves \<open>pos\<close> where it is. So the loop is a
  partial function, and \<open>None\<close> means that it runs forever. When the length byte of a
  symbolic or data segment lies beyond the buffer, the name or data is empty and \<open>pos\<close>
  becomes \<open>NaN\<close>, which ends the loop; the position is then \<open>None\<close>.
\<close>

datatype segment = Logical "int option" | Symbolic string | Data buffer

partial_function (option) parsePath_loop ::
  "buffer \<Rightarrow> nat \<Rightarrow> segment list \<Rightarrow> (error + segment list \<times> nat option) option" where
  "parsePath_loop buffer pos segments =
     (if pos < length buffer then
        (let segmentType = buffer ! pos;
             segmentFormat = (drop_bit 4 segmentType) AND 0x0F;
             segmentValue = segmentType AND 0x0F
         in if segmentFormat = 0 then
              (if segmentValue = 0 then
                 parsePath_loop buffer (pos + 2)
                   (segments @ [Logical (map_option uint (buf_get buffer (pos + 1)))])
               else if segmentValue = 1 then
                 (case fromUInt16LE buffer (pos + 1) of
                    Inl e \<Rightarrow> Some (Inl e)
                  | Inr port \<Rightarrow> parsePath_loop buffer (pos + 3) (segments @ [Logical (Some port)]))
               else if segmentValue = 2 then
                 (case fromUInt32LE buffer (pos + 1) of
                    Inl e \<Rightarrow> Some (Inl e)
                  | Inr port \<Rightarrow> parsePath_loop buffer (pos + 5) (segments @ [Logical (Some port)]))
               else parsePath_loop buffer pos segments)
            else if segmentFormat = 1 then parsePath_loop buffer (pos + 2) segments
            else if segmentFormat = 2 then
              (case buf_get buffer (pos + 1) of
                 None \<Rightarrow> Some (Inr (segments @ [Symbolic []], None))
               | Some len \<Rightarrow>
                   parsePath_loop buffer (pos + 2 + unat len)
                     (segments @ [Symbolic (toString_ascii buffer (pos + 2) (pos + 2 + unat len))]))
            else if segmentFormat = 3 then
              (case buf_get buffer (pos + 1) of
                 None \<Rightarrow> Some (Inr (segments @ [Data []], None))
               | Some len \<Rightarrow>
                   parsePath_loop buffer (pos + 2 + unat len)
                     (segments @ [Data (buf_slice buffer (pos + 2) (pos + 2 + unat len))]))
            else Some (Inr (segments, Some pos)))
      else Some (Inr (segments, Some pos)))"

declare parsePath_loop.simps [code]

record parsed_path =
  segments :: "segment list"
  path_length :: "nat option"

definition parsePath :: "buffer \<Rightarrow> nat \<Rightarrow> (error + parsed_path) option" where
  "parsePath buffer offset =
     map_option
       (map_sum id (\<lambda>(segs, pos). \<lparr> segments = segs, path_length = map_option (\<lambda>p. p - offset) pos \<rparr>))
       (parsePath_loop buffer offset [])"

text \<open>
  The simulator's \<open>_parseTagNameFromPath\<close> (src/src/simulator.js): the names of the
  symbolic segments with a non-empty name, joined with dots; \<open>null\<close> (here \<open>None\<close>) when
  there is no segment, no such name, or when \<open>parsePath\<close> throws. The outer option is that
  of \<open>parsePath\<close>.
\<close>

fun symbolic_names :: "segment list \<Rightarrow> string list" where
  "symbolic_names [] = []"
| "symbolic_names (Symbolic name # rest) =
     (if name \<noteq> [] then name # symbolic_names rest else symbolic_names rest)"
| "symbolic_names (_ # rest) = symbolic_names rest"

fun join_dot :: "string list \<Rightarrow> string" where
  "join_dot [] = []"
| "join_dot [x] = x"
| "join_dot (x # y # ys) = x @ CHR ''.'' # join_dot (y # ys)"

definition parseTagNameFromPath :: "buffer \<Rightarrow> string option option" where
  "parseTagNameFromPath cipPath =
     map_option
       (\<lambda>r. case r of
          Inl e \<Rightarrow> None
        | Inr p \<Rightarrow>
            (if segments p = [] then None
             else (let tagParts = symbolic_names (segments p)
                   in if tagParts \<noteq> [] then Some (join_dot tagParts) else None)))
       (parsePath cipPath 0)"

section \<open>CIP values (src/src/utils.js)\<close>

text \<open>
  The JavaScript values that take part: booleans, numbers, strings, \<open>undefined\<close> and
  \<open>null\<close>. A number is a rational (the doubles are among them; \<open>-0\<close> is not told from
  \<open>0\<close>), \<open>NaN\<close> or an infinity.

  The conversion of a string to a number (\<open>+value\<close>), which the runtime does and the
  repository does not define, is a parameter, the record \<open>platform\<close>.
\<close>

datatype jsnumber = Fin rat | NaN | PosInfinity | NegInfinity

datatype jsvalue = JBoolean bool | JNumber jsnumber | JString string | JUndefined | JNull

record platform =
  stringToNumber :: "string \<Rightarrow> jsnumber"

text \<open>
  \<open>writeFloatLE\<close> and \<open>writeDoubleLE\<close> store the IEEE 754 binary32 and binary64 image of a
  number, rounded to the nearest number of the format, a tie going to the even mantissa;
  \<open>readFloatLE\<close> and \<open>readDoubleLE\<close> read such an image back. A format has
  \<open>mantissa_bits\<close> stored mantissa bits and normal exponents from \<open>exp_min\<close> to \<open>exp_max\<close>.
  The image is a non-negative integer: the mantissa in the low bits, above it the
  exponent field (0 for the subnormal numbers, all ones for the infinities and \<open>NaN\<close>),
  above that the sign bit.
\<close>

record float_format =
  mantissa_bits :: nat
  exp_min :: int
  exp_max :: int

definition binary32 :: float_format where
  "binary32 = \<lparr> mantissa_bits = 23, exp_min = - 126, exp_max = 127 \<rparr>"

definition binary64 :: float_format where
  "binary64 = \<lparr> mantissa_bits = 52, exp_min = - 1022, exp_max = 1023 \<rparr>"

definition round_half_even :: "rat \<Rightarrow> int" where
  "round_half_even q =
     (let f = \<lfloor>q\<rfloor>; r = q - of_int f
      in if r < 1 / 2 then f else if 1 / 2 < r then f + 1 else if even f then f else f + 1)"

text \<open>The exponent of a positive number: the \<open>k\<close> with \<open>2 ^ k \<le> a < 2 ^ (k + 1)\<close>, found
  from the bit lengths of numerator and denominator.\<close>

definition floor_log2 :: "rat \<Rightarrow> int" where
  "floor_log2 a =
     (case quotient_of a of
        (p, q) \<Rightarrow> (let k = bitlen p - bitlen q in if 2 powi k \<le> a then k else k - 1))"

definition infinity_bits :: "float_format \<Rightarrow> int" where
  "infinity_bits F = (exp_max F - exp_min F + 2) * 2 ^ mantissa_bits F"

definition sign_bit :: "float_format \<Rightarrow> int" where
  "sign_bit F = (exp_max F - exp_min F + 3) * 2 ^ mantissa_bits F"

text \<open>
  The image of a magnitude. The number is divided by the weight of the last mantissa
  bit at its exponent (at \<open>exp_min\<close> for the subnormal numbers) and rounded; the rounded
  mantissa, which includes the leading 1 of a normal number, is added to the exponent
  field, so that a mantissa rounded up to the next power of two carries into the
  exponent. What reaches the image of infinity is infinity.
\<close>

definition magnitude_bits :: "float_format \<Rightarrow> rat \<Rightarrow> int" where
  "magnitude_bits F a =
     (if a = 0 then 0
      else (let e = max (exp_min F) (min (exp_max F) (floor_log2 a));
                m = round_half_even (a / 2 powi (e - int (mantissa_bits F)))
            in min (infinity_bits F) ((e - exp_min F) * 2 ^ mantissa_bits F + m)))"

definition float_bits :: "float_format \<Rightarrow> jsnumber \<Rightarrow> int" where
  "float_bits F x =
     (case x of
        Fin q \<Rightarrow> (if q < 0 then sign_bit F + magnitude_bits F (- q) else magnitude_bits F q)
      | NaN \<Rightarrow> infinity_bits F + 2 ^ (mantissa_bits F - 1)
      | PosInfinity \<Rightarrow> infinity_bits F
      | NegInfinity \<Rightarrow> sign_bit F + infinity_bits F)"

definition float_magnitude :: "float_format \<Rightarrow> int \<Rightarrow> int \<Rightarrow> rat" where
  "float_magnitude F ex mt =
     (if ex = 0 then of_int mt * 2 powi (exp_min F - int (mantissa_bits F))
      else of_int (2 ^ mantissa_bits F + mt) * 2 powi (ex - 1 + exp_min F - int (mantissa_bits F)))"

definition float_value :: "float_format \<Rightarrow> int \<Rightarrow> jsnumber" where
  "float_value F bits =
     (let negative = (bits div sign_bit F) mod 2 = 1;
          magnitude = bits mod sign_bit F;
          ex = magnitude div 2 ^ mantissa_bits F;
          mt = magnitude mod 2 ^ mantissa_bits F
      in if ex = exp_max F - exp_min F + 2 then
           (if mt \<noteq> 0 then NaN else if negative then NegInfinity else PosInfinity)
         else Fin (if negative then - float_magnitude F ex mt else float_magnitude F ex mt))"

text \<open>The double nearest to a rational: the result of an arithmetic operation of
  JavaScript on numbers. (Only used where the result is far below the largest double.)\<close>

definition to_double :: "rat \<Rightarrow> rat" where
  "to_double q = (case float_value binary64 (float_bits binary64 (Fin q)) of Fin r \<Rightarrow> r | _ \<Rightarrow> q)"

text \<open>\<open>+value\<close> (ToNumber), truthiness, and truncation towards zero.\<close>

definition ToNumber :: "platform \<Rightarrow> jsvalue \<Rightarrow> jsnumber" where
  "ToNumber P value =
     (case value of
        JNumber x \<Rightarrow> x
      | JBoolean b \<Rightarrow> Fin (if b then 1 else 0)
      | JString s \<Rightarrow> stringToNumber P s
      | JUndefined \<Rightarrow> NaN
      | JNull \<Rightarrow> Fin 0)"

definition truthy :: "jsvalue \<Rightarrow> bool" where
  "truthy value =
     (case value of
        JBoolean b \<Rightarrow> b
      | JNumber x \<Rightarrow> x \<noteq> Fin 0 \<and> x \<noteq> NaN
      | JString s \<Rightarrow> s \<noteq> []
      | JUndefined \<Rightarrow> False
      | JNull \<Rightarrow> False)"

definition js_trunc :: "rat \<Rightarrow> int" where
  "js_trunc q = (if q \<ge> 0 then \<lfloor>q\<rfloor> else \<lceil>q\<rceil>)"

text \<open>
  Node's integer writes (\<open>writeInt8\<close>, \<open>writeInt16LE\<close>, \<open>writeUInt32LE\<close>, ...): the value
  is converted to a number, a number above \<open>hi\<close> or below \<open>lo\<close> throws, and the bytes of
  its integer part are stored (\<open>NaN\<close> passes the comparison and stores zeros).
\<close>

definition write_number :: "int \<Rightarrow> int \<Rightarrow> nat \<Rightarrow> jsnumber \<Rightarrow> error + buffer" where
  "write_number lo hi n x =
     (case x of
        Fin q \<Rightarrow> (if q > of_int hi \<or> q < of_int lo then Inl RangeError
                  else Inr (le_bytes n (js_trunc q)))
      | NaN \<Rightarrow> Inr (le_bytes n 0)
      | PosInfinity \<Rightarrow> Inl RangeError
      | NegInfinity \<Rightarrow> Inl RangeError)"

text \<open>\<open>buffer[i] = value\<close>: the number's integer part modulo 256, zero for \<open>NaN\<close> and the
  infinities.\<close>

definition store_byte :: "jsnumber \<Rightarrow> byte" where
  "store_byte x = (case x of Fin q \<Rightarrow> word_of_int (js_trunc q) | _ \<Rightarrow> 0)"

text \<open>
  \<open>encodeValue\<close>. The 256 bytes of \<open>Buffer.allocUnsafe(256)\<close> are returned only as far as
  they were written. For a string, \<open>buffer.write\<close> stops at the end of the buffer, after
  255 characters, and \<open>buffer.slice(0, offset)\<close> is clamped to the 256 bytes;
  \<open>Buffer.byteLength\<close> throws a TypeError on a value that is not a string.
\<close>

definition encodeValue :: "platform \<Rightarrow> int \<Rightarrow> jsvalue \<Rightarrow> error + buffer" where
  "encodeValue P dataType value =
     (if dataType = 0xC1 then Inr [if truthy value then 0xFF else 0x00]
      else if dataType = 0xC2 then write_number (- 128) 127 1 (ToNumber P value)
      else if dataType = 0xC3 then write_number (- 32768) 32767 2 (ToNumber P value)
      else if dataType = 0xC4 then write_number (- 2147483648) 2147483647 4 (ToNumber P value)
      else if dataType = 0xC6 then Inr [store_byte (ToNumber P value)]
      else if dataType = 0xC7 then write_number 0 65535 2 (ToNumber P value)
      else if dataType = 0xC8 then write_number 0 4294967295 4 (ToNumber P value)
      else if dataType = 0xCA then Inr (le_bytes 4 (float_bits binary32 (ToNumber P value)))
      else if dataType = 0xCB then Inr (le_bytes 8 (float_bits binary64 (ToNumber P value)))
      else if dataType = 0xDA then
        (case value of
           JString s \<Rightarrow> Inr (take 256 (of_nat (length s) # map byte_of_char s))
         | _ \<Rightarrow> Inl TypeError)
      else Inl (UnsupportedDataType dataType))"

text \<open>
  \<open>decodeValue\<close>. \<open>buffer[offset]\<close> beyond the end is \<open>undefined\<close>, which is \<open>!== 0\<close>; the
  \<open>read...\<close> methods throw there. For a string whose length byte is \<open>undefined\<close> the end
  bound is \<open>NaN\<close> and \<open>toString\<close> returns the empty string.
\<close>

definition decodeValue :: "platform \<Rightarrow> int \<Rightarrow> buffer \<Rightarrow> nat \<Rightarrow> error + jsvalue" where
  "decodeValue P dataType buffer offset =
     (if dataType = 0xC1 then
        Inr (JBoolean (case buf_get buffer offset of None \<Rightarrow> True | Some b \<Rightarrow> b \<noteq> 0))
      else if dataType = 0xC2 then
        bindE (readIntLE 1 buffer offset) (\<lambda>v. Inr (JNumber (Fin (of_int v))))
      else if dataType = 0xC3 then
        bindE (readIntLE 2 buffer offset) (\<lambda>v. Inr (JNumber (Fin (of_int v))))
      else if dataType = 0xC4 then
        bindE (readIntLE 4 buffer offset) (\<lambda>v. Inr (JNumber (Fin (of_int v))))
      else if dataType = 0xC6 then
        Inr (case buf_get buffer offset of
               None \<Rightarrow> JUndefined
             | Some b \<Rightarrow> JNumber (Fin (of_int (uint b))))
      else if dataType = 0xC7 then
        bindE (readUIntLE 2 buffer offset) (\<lambda>v. Inr (JNumber (Fin (of_int v))))
      else if dataType = 0xC8 then
        bindE (readUIntLE 4 buffer offset) (\<lambda>v. Inr (JNumber (Fin (of_int v))))
      else if dataType = 0xCA then
        bindE (readUIntLE 4 buffer offset) (\<lambda>v. Inr (JNumber (float_value binary32 v)))
      else if dataType = 0xCB then
        bindE (readUIntLE 8 buffer offset) (\<lambda>v. Inr (JNumber (float_value binary64 v)))
      else if dataType = 0xDA then
        Inr (JString (case buf_get buffer offset of
                        None \<Rightarrow> []
                      | Some len \<Rightarrow> toString_ascii buffer (offset + 1) (offset + 1 + unat len)))
      else Inl (UnsupportedDataType dataType))"

text \<open>Modelled from the spec: \<open>CIP_DATA_TYPES\<close> of constants.js, which is not among the
  sources; the ten type tags as the specification and the README list them.\<close>

definition CIP_BOOL :: int where "CIP_BOOL = 0xC1"
definition CIP_SINT :: int where "CIP_SINT = 0xC2"
definition CIP_INT :: int where "CIP_INT = 0xC3"
definition CIP_DINT :: int where "CIP_DINT = 0xC4"
definition CIP_USINT :: int where "CIP_USINT = 0xC6"
definition CIP_UINT :: int where "CIP_UINT = 0xC7"
definition CIP_UDINT :: int where "CIP_UDINT = 0xC8"
definition CIP_REAL :: int where "CIP_REAL = 0xCA"
definition CIP_LREAL :: int where "CIP_LREAL = 0xCB"
definition CIP_STRING :: int where "CIP_STRING = 0xDA"

text \<open>\<open>EthernetIPDriver._inferDataType\<close>. \<open>Number.isInteger\<close> holds of the finite
  numbers without fractional part.\<close>

definition isInteger :: "jsnumber \<Rightarrow> bool" where
  "isInteger x = (case x of Fin q \<Rightarrow> q = of_int \<lfloor>q\<rfloor> | _ \<Rightarrow> False)"

definition num_ge :: "jsnumber \<Rightarrow> int \<Rightarrow> bool" where
  "num_ge x k = (case x of Fin q \<Rightarrow> q \<ge> of_int k | PosInfinity \<Rightarrow> True | _ \<Rightarrow> False)"

definition num_le :: "jsnumber \<Rightarrow> int \<Rightarrow> bool" where
  "num_le x k = (case x of Fin q \<Rightarrow> q \<le> of_int k | NegInfinity \<Rightarrow> True | _ \<Rightarrow> False)"

definition inferDataType :: "jsvalue \<Rightarrow> error + int" where
  "inferDataType value =
     (case value of
        JBoolean b \<Rightarrow> Inr CIP_BOOL
      | JNumber x \<Rightarrow>
          (if isInteger x then
             (if num_ge x (- 128) \<and> num_le x 127 then Inr CIP_SINT
              else if num_ge x 0 \<and> num_le x 255 then Inr CIP_USINT
              else if num_ge x (- 32768) \<and> num_le x 32767 then Inr CIP_INT
              else if num_ge x 0 \<and> num_le x 65535 then Inr CIP_UINT
              else Inr CIP_DINT)
           else Inr CIP_REAL)
      | JString s \<Rightarrow> Inr CIP_STRING
      | _ \<Rightarrow> Inl CannotInferDataType)"

text \<open>Encoding a value and decoding the result at offset 0.\<close>

definition encode_then_decode :: "platform \<Rightarrow> int \<Rightarrow> jsvalue \<Rightarrow> error + jsvalue" where
  "encode_then_decode P dataType value =
     bindE (encodeValue P dataType value) (\<lambda>buffer. decodeValue P dataType buffer 0)"

text \<open>A platform to evaluate the model on where a closed term is needed. To it no
  string is a number, which is what JavaScript makes of the strings that are not numeric
  literals; no evaluation below converts a string.\<close>

definition sample_platform :: platform where
  "sample_platform = \<lparr> stringToNumber = (\<lambda>s. NaN) \<rparr>"

section \<open>The message layer (src/src/message.js)\<close>

text \<open>Modelled from the spec: \<open>EIP_COMMANDS\<close> and \<open>CIP_SERVICES\<close> of constants.js, which
  is not among the sources; the command codes of the wire-protocol table of the
  specification, the Read Tag service code it names, and the Write Tag code of the
  repository's configuration guide.\<close>

definition REGISTER_SESSION :: int where "REGISTER_SESSION = 0x0065"
definition UNREGISTER_SESSION :: int where "UNREGISTER_SESSION = 0x0066"
definition SEND_RR_DATA :: int where "SEND_RR_DATA = 0x006F"
definition LIST_IDENTITY :: int where "LIST_IDENTITY = 0x0063"
definition READ_TAG :: int where "READ_TAG = 0x4C"
definition WRITE_TAG :: int where "WRITE_TAG = 0x4D"

definition buildRegisterSession :: "int \<Rightarrow> int \<Rightarrow> error + buffer" where
  "buildRegisterSession protocolVersion optionsFlags =
     bindE (buildEIPHeader REGISTER_SESSION 4 0 0 (replicate 8 0) 0) (\<lambda>header.
     bindE (toUInt16LE protocolVersion) (\<lambda>v.
     bindE (toUInt16LE optionsFlags) (\<lambda>f.
       Inr (header @ buf_copy f (buf_copy v (replicate 4 0) 0) 2))))"

definition buildUnregisterSession :: "int \<Rightarrow> error + buffer" where
  "buildUnregisterSession sessionHandle =
     buildEIPHeader UNREGISTER_SESSION 0 sessionHandle 0 (replicate 8 0) 0"

text \<open>
  The argument \<open>interfaceHandleFormat\<close> of \<open>buildSendRRData\<close>: \<open>true\<close>, a number (a timeout
  in milliseconds), or anything else, such as the default \<open>false\<close>.
\<close>

datatype interface_handle_format = IHF_false | IHF_true | IHF_number int

text \<open>
  What \<open>buildSendRRData\<close> takes from the runtime when no sender context is passed:
  \<open>Date.now()\<close> and \<open>Math.floor(Math.random() * 0xFFFFFFFF)\<close>.
\<close>

record js_env =
  date_now :: int
  random_scaled :: int

text \<open>JavaScript's \<open>a & b\<close>: both operands as 32-bit words, the result read as a signed
  32-bit integer.\<close>

definition js_bitand :: "int \<Rightarrow> int \<Rightarrow> int" where
  "js_bitand a b = sint ((word_of_int a :: 32 word) AND word_of_int b)"

definition synthesize_context :: "js_env \<Rightarrow> error + buffer" where
  "synthesize_context env =
     bindE (writeUIntLE 4 (js_bitand (date_now env) 0xFFFFFFFF)) (\<lambda>t.
     bindE (writeUIntLE 4 (random_scaled env)) (\<lambda>r.
       Inr (buf_copy r (buf_copy t (replicate 8 0) 0) 4)))"

definition pad_path :: "buffer \<Rightarrow> buffer" where
  "pad_path cipPath = (if length cipPath mod 2 = 0 then cipPath else cipPath @ [0])"

definition buildSendRRData ::
  "js_env \<Rightarrow> int \<Rightarrow> int \<Rightarrow> buffer \<Rightarrow> buffer \<Rightarrow> buffer option \<Rightarrow> interface_handle_format
     \<Rightarrow> error + buffer" where
  "buildSendRRData env sessionHandle cipService cipPath cipData senderContext interfaceHandleFormat =
     bindE (case interfaceHandleFormat of
              IHF_true \<Rightarrow> Inr (replicate 4 0)
            | IHF_number t \<Rightarrow> bindE (writeUIntLE 2 t) (\<lambda>b. Inr (buf_copy b (replicate 4 0) 2))
            | IHF_false \<Rightarrow> Inr (replicate 4 0)) (\<lambda>interfaceHandle.
     let paddedPath = pad_path cipPath;
         pathSize = length paddedPath div 2
     in if pathSize > 255 then Inl (CIPPathTooLong pathSize)
        else
          (let pathSizeBuffer = [of_nat pathSize];
               cipPacket = [word_of_int cipService] @ pathSizeBuffer @ paddedPath @ cipData
           in bindE (toUInt16LE (int (length cipPacket))) (\<lambda>cipLength.
              let rrData = interfaceHandle @ cipLength @ cipPacket
              in bindE (case senderContext of
                          Some context \<Rightarrow> Inr context
                        | None \<Rightarrow> synthesize_context env) (\<lambda>context.
                 bindE (buildEIPHeader SEND_RR_DATA (int (length rrData)) sessionHandle 0 context 0)
                   (\<lambda>header. Inr (header @ rrData))))))"

definition buildReadTagRequest ::
  "js_env \<Rightarrow> int \<Rightarrow> string \<Rightarrow> int \<Rightarrow> string \<Rightarrow> bool \<Rightarrow> interface_handle_format
     \<Rightarrow> error + buffer" where
  "buildReadTagRequest env sessionHandle tagName elementCount pathFormat useMessageRouter
      interfaceHandleFormat =
     bindE (if pathFormat = ''symbolic'' then buildPathSymbolic tagName
            else if pathFormat = ''16bit'' then buildPath16Bit tagName
            else if pathFormat = ''standard'' then buildPathStandard tagName
            else if pathFormat = ''withRouter'' then buildPath tagName True False
            else if pathFormat = ''withRouterCompact'' then buildPath tagName True True
            else buildPath tagName useMessageRouter False) (\<lambda>cipPath.
     bindE (toUInt16LE elementCount) (\<lambda>cipData.
       buildSendRRData env sessionHandle READ_TAG cipPath cipData None interfaceHandleFormat))"

definition buildWriteTagRequest ::
  "platform \<Rightarrow> js_env \<Rightarrow> int \<Rightarrow> string \<Rightarrow> int \<Rightarrow> jsvalue \<Rightarrow> int \<Rightarrow> error + buffer" where
  "buildWriteTagRequest P env sessionHandle tagName dataType value elementCount =
     bindE (buildPath tagName False False) (\<lambda>cipPath.
     bindE (encodeValue P dataType value) (\<lambda>encodedValue.
     bindE (toUInt16LE elementCount) (\<lambda>count.
       buildSendRRData env sessionHandle WRITE_TAG cipPath
         (count @ [word_of_int dataType] @ encodedValue) None IHF_false)))"

record rr_response =
  rr_sessionHandle :: int
  rr_interfaceHandle :: int
  rr_cipStatus :: int
  rr_cipData :: buffer

text \<open>
  \<open>parseSendRRDataResponse\<close>. The error of a non-zero header status carries the status
  as \<open>statusCode\<close> (its message and suggestions, looked up by \<open>getDetailedError\<close>, are not
  modelled). When the buffer ends before the CIP status byte, \<open>cipStatus\<close> is
  \<open>undefined\<close>, which is \<open>!== 0\<close>, and building the message calls \<open>toString\<close> on it: a
  TypeError.
\<close>

definition parseSendRRDataResponse :: "buffer \<Rightarrow> error + rr_response" where
  "parseSendRRDataResponse buffer =
     bindE (parseEIPHeader buffer) (\<lambda>header.
       if hdr_command header \<noteq> SEND_RR_DATA then Inl (UnexpectedCommand (hdr_command header))
       else if hdr_status header \<noteq> 0 then Inl (EIPStatusError (hdr_status header))
       else
         bindE (fromUInt32LE buffer 24) (\<lambda>interfaceHandle.
         bindE (fromUInt16LE buffer 28) (\<lambda>cipLength.
           case buf_get buffer 30 of
             None \<Rightarrow> Inl TypeError
           | Some cipStatus \<Rightarrow>
               if cipStatus \<noteq> 0 then Inl (CIPStatusError (uint cipStatus))
               else Inr \<lparr> rr_sessionHandle = hdr_sessionHandle header,
                         rr_interfaceHandle = interfaceHandle,
                         rr_cipStatus = uint cipStatus,
                         rr_cipData = buf_slice buffer 31 (31 + nat cipLength - 1) \<rparr>)))"

record read_tag_response =
  rt_dataType :: int
  rt_elementCount :: int
  rt_data :: buffer
  rt_cipStatus :: int

definition parseReadTagResponse :: "buffer \<Rightarrow> error + read_tag_response" where
  "parseReadTagResponse buffer =
     bindE (parseSendRRDataResponse buffer) (\<lambda>response.
       if length (rr_cipData response) < 2 then Inl InvalidReadTagResponse
       else
         bindE (fromUInt16LE (rr_cipData response) 1) (\<lambda>elementCount.
           Inr \<lparr> rt_dataType = uint (rr_cipData response ! 0),
                 rt_elementCount = elementCount,
                 rt_data = drop 3 (rr_cipData response),
                 rt_cipStatus = rr_cipStatus response \<rparr>))"

definition parseWriteTagResponse :: "buffer \<Rightarrow> error + int" where
  "parseWriteTagResponse buffer =
     bindE (parseSendRRDataResponse buffer) (\<lambda>response. Inr (rr_cipStatus response))"

section \<open>The connection (class EIPConnection)\<close>

text \<open>
  The state of an \<open>EIPConnection\<close>: its fields, and next to them what it has done to the
  outside so far. \<open>socket\<close> holds the number of the \<open>Socket\<close> object, \<open>None\<close> for \<open>null\<close>;
  the field \<open>connected\<close> of the source is \<open>connectedFlag\<close> here; \<open>pendingResponse\<close> and
  \<open>connectCallbacks\<close> say whether \<open>_pendingResponse\<close> and \<open>_connectResolve\<close>/\<open>_connectReject\<close>
  hold callbacks. \<open>socketsMade\<close> counts the \<open>new Socket()\<close> calls, \<open>wire\<close> lists every
  \<open>socket.write(message)\<close> with the socket written to, \<open>emitted\<close> the events emitted. The
  fields \<open>host\<close>, \<open>port\<close>, \<open>pendingRequests\<close> and \<open>requestId\<close> are never written after the
  constructor and are left out.

  Three components belong to the event emitter and the event loop. \<open>errorListener\<close> says
  whether the \<open>'error'\<close> event has a listener where it ends up: on the connection when it
  is used alone, on the driver when a driver owns it (the driver's constructor forwards
  the connection's \<open>'error'\<close> to itself). \<open>closeTimers\<close> counts the timers that
  \<open>disconnect()\<close> has armed and that have not fired. \<open>processEnded\<close> says that an exception
  has left a handler of the event loop uncaught: Node then ends the process (the
  library installs no handler for uncaught exceptions) and nothing runs any more.

  A promise is \<open>Resolved\<close>, \<open>Rejected\<close> or still \<open>Pending\<close> when the call returns.
\<close>

datatype 'a promise = Resolved 'a | Rejected error | Pending

record connection =
  socket :: "nat option"
  sessionHandle :: int
  connectedFlag :: bool
  timeout :: int
  pendingResponse :: bool
  connectCallbacks :: bool
  socketsMade :: nat
  wire :: "(nat \<times> buffer) list"
  emitted :: "string list"
  errorListener :: bool
  closeTimers :: nat
  processEnded :: bool

definition initial_connection :: connection where
  "initial_connection =
     \<lparr> socket = None, sessionHandle = 0, connectedFlag = False, timeout = 5000,
       pendingResponse = False, connectCallbacks = False, socketsMade = 0, wire = [],
       emitted = [], errorListener = False, closeTimers = 0, processEnded = False \<rparr>"

definition setTimeout :: "connection \<Rightarrow> int \<Rightarrow> connection" where
  "setTimeout s t = s\<lparr>timeout := t\<rparr>"

text \<open>\<open>on('error', listener)\<close>, and \<open>emit('error', error)\<close>: an \<open>'error'\<close> event that has no
  listener is thrown by \<open>emit\<close>.\<close>

definition on_error :: "connection \<Rightarrow> connection" where
  "on_error s = s\<lparr>errorListener := True\<rparr>"

definition emit_error :: "connection \<Rightarrow> connection" where
  "emit_error s =
     (if errorListener s then s\<lparr>emitted := emitted s @ [''error'']\<rparr>
      else s\<lparr>processEnded := True\<rparr>)"

text \<open>\<open>connect()\<close>: resolved at once when already connected; otherwise a new socket is
  made, its handlers are registered, it starts to connect, and the callbacks of the
  promise are stored.\<close>

definition connect :: "connection \<Rightarrow> unit promise \<times> connection" where
  "connect s =
     (if connectedFlag s then (Resolved (), s)
      else (Pending, s\<lparr>socket := Some (socketsMade s), socketsMade := Suc (socketsMade s),
                        connectCallbacks := True\<rparr>))"

text \<open>
  The handlers that \<open>connect()\<close> registers on the socket. They read \<open>this.socket\<close> when
  they run, whichever socket the event comes from. \<open>'connect'\<close> runs \<open>_registerSession\<close>,
  which writes to \<open>this.socket\<close>; \<open>'timeout'\<close> destroys \<open>this.socket\<close> and rejects the promise
  of \<open>connect()\<close>, which changes none of the fields (the \<open>'close'\<close> event of the destroyed
  socket comes separately). When \<open>this.socket\<close> is \<open>null\<close> both throw a TypeError out of the
  handler. \<open>'error'\<close> clears the flag and emits \<open>'error'\<close> before it rejects the promise.
  An exception that leaves a handler ends the process.
\<close>

definition registerSession :: "connection \<Rightarrow> connection" where
  "registerSession s =
     (case buildRegisterSession 1 0 of
        Inl e \<Rightarrow> s\<lparr>processEnded := True\<rparr>
      | Inr message \<Rightarrow>
          (case socket s of
             None \<Rightarrow> s\<lparr>processEnded := True\<rparr>
           | Some k \<Rightarrow> s\<lparr>wire := wire s @ [(k, message)]\<rparr>))"

definition handleData :: "connection \<Rightarrow> buffer \<Rightarrow> connection" where
  "handleData s data =
     (if length data < 24 then s
      else (case parseEIPHeader data of
              Inl e \<Rightarrow> s\<lparr>processEnded := True\<rparr>
            | Inr header \<Rightarrow>
                if hdr_command header = 0x0065 then
                  (if hdr_status header = 0
                   then s\<lparr>sessionHandle := hdr_sessionHandle header, connectedFlag := True,
                           connectCallbacks := False, emitted := emitted s @ [''connected'']\<rparr>
                   else emit_error (s\<lparr>connectCallbacks := False\<rparr>))
                else if pendingResponse s then s\<lparr>pendingResponse := False\<rparr>
                else s))"

text \<open>What \<open>_handleData\<close> settles the promise of the pending request to, when it does:
  the data, or the error of a non-zero header status.\<close>

definition response_outcome :: "connection \<Rightarrow> buffer \<Rightarrow> (error + buffer) option" where
  "response_outcome s data =
     (if length data < 24 then None
      else (case parseEIPHeader data of
              Inl e \<Rightarrow> None
            | Inr header \<Rightarrow>
                if hdr_command header = 0x0065 then None
                else if pendingResponse s then
                  Some (if hdr_status header \<noteq> 0 then Inl (EIPStatusError (hdr_status header))
                        else Inr data)
                else None))"

text \<open>The data that \<open>_handleData\<close> takes for the answer to a RegisterSession that
  succeeded: on it, and on nothing else, it sets the flag.\<close>

definition registers :: "buffer \<Rightarrow> bool" where
  "registers data =
     (24 \<le> length data
      \<and> (case parseEIPHeader data of
            Inl e \<Rightarrow> False
          | Inr header \<Rightarrow> hdr_command header = 0x0065 \<and> hdr_status header = 0))"

definition on_socket_error :: "connection \<Rightarrow> connection" where
  "on_socket_error s = emit_error (s\<lparr>connectedFlag := False\<rparr>)"

definition on_socket_close :: "connection \<Rightarrow> connection" where
  "on_socket_close s =
     s\<lparr>connectedFlag := False, sessionHandle := 0, emitted := emitted s @ [''close'']\<rparr>"

definition on_socket_timeout :: "connection \<Rightarrow> connection" where
  "on_socket_timeout s = (case socket s of None \<Rightarrow> s\<lparr>processEnded := True\<rparr> | Some k \<Rightarrow> s)"

text \<open>\<open>sendRequest(message)\<close> up to the point where it returns its promise: rejected at
  once when not connected; otherwise the response slot is filled, the timeout armed and
  the message written.\<close>

definition sendRequest :: "connection \<Rightarrow> buffer \<Rightarrow> buffer promise \<times> connection" where
  "sendRequest s message =
     (if \<not> connectedFlag s then (Rejected NotConnected, s)
      else (case socket s of
              None \<Rightarrow> (Rejected TypeError, s\<lparr>pendingResponse := True\<rparr>)
            | Some k \<Rightarrow> (Pending, s\<lparr>pendingResponse := True, wire := wire s @ [(k, message)]\<rparr>)))"

definition on_request_timeout :: "connection \<Rightarrow> connection" where
  "on_request_timeout s = s\<lparr>pendingResponse := False\<rparr>"

definition closeSocket :: "connection \<Rightarrow> connection" where
  "closeSocket s =
     s\<lparr>socket := None, connectedFlag := False, sessionHandle := 0,
       emitted := emitted s @ [''disconnected'']\<rparr>"

text \<open>
  \<open>disconnect()\<close>. When there is a session, the UnregisterSession message is written, a
  timer of 100 ms is armed and the promise stays pending: the timer's callback
  (\<open>on_disconnect_timer\<close>) runs \<open>_closeSocket\<close> and resolves it. In the other cases the
  promise is resolved before the call returns.
\<close>

definition disconnect :: "connection \<Rightarrow> unit promise \<times> connection" where
  "disconnect s =
     (case socket s of
        None \<Rightarrow> (Resolved (), s)
      | Some k \<Rightarrow>
          if \<not> connectedFlag s then (Resolved (), s)
          else if sessionHandle s \<noteq> 0 then
            (case buildUnregisterSession (sessionHandle s) of
               Inr message \<Rightarrow>
                 (Pending, s\<lparr>wire := wire s @ [(k, message)], closeTimers := Suc (closeTimers s)\<rparr>)
             | Inl e \<Rightarrow> (Resolved (), closeSocket s))
          else (Resolved (), closeSocket s))"

definition on_disconnect_timer :: "connection \<Rightarrow> connection" where
  "on_disconnect_timer s = closeSocket (s\<lparr>closeTimers := closeTimers s - 1\<rparr>)"

text \<open>
  What the event loop runs between the calls: the handler of a socket event, the
  callback of a request timer (\<open>RequestTimer\<close>) or of a timer of \<open>disconnect()\<close>
  (\<open>DisconnectTimer\<close>, which needs such a timer to be armed). The \<open>'error'\<close> and the
  \<open>'close'\<close> event of a socket are two events: between them the flag is cleared and the
  session handle is not. Nothing runs once the process has ended.
\<close>

datatype event =
  SocketConnect | SocketData buffer | SocketError | SocketClose | SocketTimeout
  | RequestTimer | DisconnectTimer

definition run_handler :: "event \<Rightarrow> connection \<Rightarrow> connection" where
  "run_handler e s =
     (if processEnded s then s
      else (case e of
              SocketConnect \<Rightarrow> registerSession s
            | SocketData data \<Rightarrow> handleData s data
            | SocketError \<Rightarrow> on_socket_error s
            | SocketClose \<Rightarrow> on_socket_close s
            | SocketTimeout \<Rightarrow> on_socket_timeout s
            | RequestTimer \<Rightarrow> on_request_timeout s
            | DisconnectTimer \<Rightarrow> if closeTimers s = 0 then s else on_disconnect_timer s))"

text \<open>A history of a connection: calls of its methods and events, in any order.\<close>

datatype action =
  Handler event | CallConnect | CallDisconnect | CallSendRequest buffer | CallSetTimeout int
  | CallOnError

definition do_action :: "action \<Rightarrow> connection \<Rightarrow> connection" where
  "do_action a s =
     (if processEnded s then s
      else (case a of
              Handler e \<Rightarrow> run_handler e s
            | CallConnect \<Rightarrow> snd (connect s)
            | CallDisconnect \<Rightarrow> snd (disconnect s)
            | CallSendRequest message \<Rightarrow> snd (sendRequest s message)
            | CallSetTimeout t \<Rightarrow> setTimeout s t
            | CallOnError \<Rightarrow> on_error s))"

definition run :: "action list \<Rightarrow> connection \<Rightarrow> connection" where
  "run actions s = fold do_action actions s"

section \<open>The driver (class EthernetIPDriver)\<close>

text \<open>
  The driver owns one connection and nothing else that changes, so its methods work on
  the state of the connection. \<open>isConnected()\<close> and \<open>getSessionHandle()\<close> read the two
  fields.

  A method that awaits a response depends on what the other side does. That is the
  parameter \<open>world\<close>: \<open>w_env\<close> gives the clock and the random number at the time a request
  is built, and \<open>w_events\<close> gives, for the state in which the request has been written, the
  events that the event loop runs, in order, before the timer of the request expires.
  The caller resumes when the promise of \<open>sendRequest\<close> settles (\<open>settle\<close>): with the
  first data that \<open>_handleData\<close> takes for the response, or else, after the events, with
  the timeout of the request's own timer. It never resumes when the process ends first,
  which is the result \<open>None\<close>. A \<open>RequestTimer\<close> among the events is the timer of an
  earlier request. No other caller uses the connection in between.
\<close>

definition isConnected :: "connection \<Rightarrow> bool" where
  "isConnected s = connectedFlag s"

definition getSessionHandle :: "connection \<Rightarrow> int" where
  "getSessionHandle s = sessionHandle s"

record world =
  w_env :: "connection \<Rightarrow> js_env"
  w_events :: "connection \<Rightarrow> event list"

fun settle :: "connection \<Rightarrow> event list \<Rightarrow> ((error + buffer) \<times> connection) option" where
  "settle s [] =
     (if processEnded s then None else Some (Inl RequestTimeout, on_request_timeout s))"
| "settle s (e # es) =
     (if processEnded s then None
      else (case (case e of SocketData data \<Rightarrow> response_outcome s data | _ \<Rightarrow> None) of
              Some r \<Rightarrow> Some (r, run_handler e s)
            | None \<Rightarrow> settle (run_handler e s) es))"

definition await_sendRequest ::
  "world \<Rightarrow> connection \<Rightarrow> buffer \<Rightarrow> ((error + buffer) \<times> connection) option" where
  "await_sendRequest W s message =
     (case sendRequest s message of
        (Rejected e, s') \<Rightarrow> Some (Inl e, s')
      | (Resolved response, s') \<Rightarrow> Some (Inr response, s')
      | (Pending, s') \<Rightarrow> settle s' (w_events W s'))"

text \<open>
  What \<open>readTag\<close> returns: one value, or an array of values for an element count other
  than 1. In the array loop the offset grows by \<open>data.length / elementCount\<close>, a double
  that need not be an integer, and the sum is rounded to a double each time. At an
  offset that is not an integer, \<open>buffer[offset]\<close> is \<open>undefined\<close> and the \<open>read...\<close> methods
  throw.
\<close>

datatype tagvalue = Single jsvalue | Array "jsvalue list"

definition decodeValue_at :: "platform \<Rightarrow> int \<Rightarrow> buffer \<Rightarrow> rat \<Rightarrow> error + jsvalue" where
  "decodeValue_at P dataType buffer offset =
     (if offset = of_int \<lfloor>offset\<rfloor> then decodeValue P dataType buffer (nat \<lfloor>offset\<rfloor>)
      else if dataType = 0xC1 then Inr (JBoolean True)
      else if dataType = 0xC6 then Inr JUndefined
      else if dataType = 0xDA then Inr (JString [])
      else if dataType \<in> {0xC2, 0xC3, 0xC4, 0xC7, 0xC8, 0xCA, 0xCB} then Inl RangeError
      else Inl (UnsupportedDataType dataType))"

fun decodeArray :: "platform \<Rightarrow> int \<Rightarrow> buffer \<Rightarrow> rat \<Rightarrow> rat \<Rightarrow> nat \<Rightarrow> error + jsvalue list" where
  "decodeArray P dataType buffer elementSize offset 0 = Inr []"
| "decodeArray P dataType buffer elementSize offset (Suc n) =
     bindE (decodeValue_at P dataType buffer offset) (\<lambda>v.
     bindE (decodeArray P dataType buffer elementSize (to_double (offset + elementSize)) n)
       (\<lambda>vs. Inr (v # vs)))"

definition decodeReadTagResponse :: "platform \<Rightarrow> buffer \<Rightarrow> int \<Rightarrow> error + tagvalue" where
  "decodeReadTagResponse P response elementCount =
     bindE (parseReadTagResponse response) (\<lambda>parsed.
       if rt_cipStatus parsed \<noteq> 0 then Inl (CIPErrorReadingTag (rt_cipStatus parsed))
       else if elementCount = 1 then
         bindE (decodeValue P (rt_dataType parsed) (rt_data parsed) 0) (\<lambda>v. Inr (Single v))
       else
         (let elementSize = to_double (of_nat (length (rt_data parsed)) / of_int elementCount)
          in bindE (decodeArray P (rt_dataType parsed) (rt_data parsed) elementSize 0
                      (nat elementCount))
               (\<lambda>vs. Inr (Array vs))))"

text \<open>\<open>readTag\<close> and \<open>writeTag\<close>. The branch of \<open>readTag\<close> that logs the request when
  \<open>DEBUG\<close> is set has no part in the result and is left out. The result is \<open>None\<close> when the
  process ends while the response is awaited.\<close>

definition readTag ::
  "platform \<Rightarrow> world \<Rightarrow> connection \<Rightarrow> string \<Rightarrow> int \<Rightarrow> string \<Rightarrow> bool \<Rightarrow> interface_handle_format
     \<Rightarrow> ((error + tagvalue) \<times> connection) option" where
  "readTag P W s tagName elementCount pathFormat useMessageRouter interfaceHandleFormat =
     (if \<not> connectedFlag s then Some (Inl NotConnectedToPLC, s)
      else (case buildReadTagRequest (w_env W s) (sessionHandle s) tagName elementCount pathFormat
                   useMessageRouter interfaceHandleFormat of
              Inl e \<Rightarrow> Some (Inl e, s)
            | Inr request \<Rightarrow>
                (case await_sendRequest W s request of
                   None \<Rightarrow> None
                 | Some (Inl e, s') \<Rightarrow> Some (Inl e, s')
                 | Some (Inr response, s') \<Rightarrow>
                     Some (decodeReadTagResponse P response elementCount, s'))))"

definition writeTag ::
  "platform \<Rightarrow> world \<Rightarrow> connection \<Rightarrow> string \<Rightarrow> jsvalue \<Rightarrow> int option \<Rightarrow> int
     \<Rightarrow> ((error + unit) \<times> connection) option" where
  "writeTag P W s tagName value dataType elementCount =
     (if \<not> connectedFlag s then Some (Inl NotConnectedToPLC, s)
      else (case (case dataType of None \<Rightarrow> inferDataType value | Some t \<Rightarrow> Inr t) of
              Inl e \<Rightarrow> Some (Inl e, s)
            | Inr t \<Rightarrow>
                (case buildWriteTagRequest P (w_env W s) (sessionHandle s) tagName t value
                        elementCount of
                   Inl e \<Rightarrow> Some (Inl e, s)
                 | Inr request \<Rightarrow>
                     (case await_sendRequest W s request of
                        None \<Rightarrow> None
                      | Some (Inl e, s') \<Rightarrow> Some (Inl e, s')
                      | Some (Inr response, s') \<Rightarrow>
                          (case parseWriteTagResponse response of
                             Inl e \<Rightarrow> Some (Inl e, s')
                           | Inr cipStatus \<Rightarrow>
                               if cipStatus \<noteq> 0 then Some (Inl (CIPErrorWritingTag cipStatus), s')
                               else Some (Inr (), s'))))))"








section \<open>Runs to evaluate the model on\<close>

text \<open>
  A server that answers RegisterSession with the session handle 7, and the state of a
  connection after \<open>connect()\<close>, the socket's \<open>'connect'\<close> event and that answer. Three
  worlds: a PLC that answers every request with the BOOL value \<open>true\<close>; a PLC that does
  the same but closes the connection, without an answer, when the request is for the
  tag \<open>A\<close> (its path, \<open>91 01 41\<close>, starts at byte 32 of the request); and a network that
  resets the connection while a request is pending.
\<close>

definition register_reply :: buffer where
  "register_reply =
     [0x65, 0, 4, 0, 7, 0, 0, 0, 0, 0, 0, 0, 0, 0, 0, 0, 0, 0, 0, 0, 0, 0, 0, 0, 1, 0, 0, 0]"

definition session_state :: connection where
  "session_state = handleData (registerSession (snd (connect initial_connection))) register_reply"

definition bool_response :: buffer where
  "bool_response =
     [0x6F, 0, 11, 0, 7, 0, 0, 0, 0, 0, 0, 0, 0, 0, 0, 0, 0, 0, 0, 0, 0, 0, 0, 0,
      0, 0, 0, 0, 5, 0, 0, 0xC1, 1, 0, 0xFF]"

definition sample_world :: world where
  "sample_world =
     \<lparr> w_env = (\<lambda>s. \<lparr> date_now = 0, random_scaled = 0 \<rparr>),
       w_events = (\<lambda>s. [SocketData bool_response]) \<rparr>"



section \<open>Verification\<close>

subsection \<open>Facts about the little-endian codec\<close>

lemma bindE_Inr [simp]: "bindE (Inr x) f = f x"
  by (simp add: bindE_def)

lemma bindE_Inl [simp]: "bindE (Inl e) f = Inl e"
  by (simp add: bindE_def)

lemma length_le_bytes [simp]: "length (le_bytes n v) = n"
  by (induction n arbitrary: v) simp_all

lemma le_value_le_bytes: "le_value (le_bytes n v) = v mod 256 ^ n"
proof (induction n arbitrary: v)
  case 0
  show ?case by simp
next
  case (Suc n)
  have "uint (word_of_int v :: byte) = v mod 256"
    by (simp add: uint_word_of_int)
  moreover have "v mod 256 + 256 * (v div 256 mod 256 ^ n) = v mod (256 * 256 ^ n)"
    by (simp add: zmod_zmult2_eq)
  ultimately show ?case using Suc by simp
qed

lemma le_value_le_bytes_unsigned:
  "0 \<le> v \<Longrightarrow> v < 256 ^ n \<Longrightarrow> le_value (le_bytes n v) = v"
  by (simp add: le_value_le_bytes)

lemma writeUIntLE_ok: "0 \<le> v \<Longrightarrow> v < 256 ^ n \<Longrightarrow> writeUIntLE n v = Inr (le_bytes n v)"
  by (simp add: writeUIntLE_def)

lemma buf_copy_replicate:
  "length a = pos \<Longrightarrow> length src \<le> k \<Longrightarrow>
   buf_copy src (a @ replicate k x) pos = a @ src @ replicate (k - length src) x"
  by (simp add: buf_copy_def)

lemma buf_slice_append_mid:
  "length a = i \<Longrightarrow> j = i + length b \<Longrightarrow> buf_slice (a @ b @ c) i j = b"
  by (simp add: buf_slice_def)

lemma readUIntLE_at:
  "length a = i \<Longrightarrow> 0 \<le> v \<Longrightarrow> v < 256 ^ n \<Longrightarrow>
   readUIntLE n (a @ le_bytes n v @ c) i = Inr v"
  by (simp add: readUIntLE_def buf_slice_def le_value_le_bytes_unsigned)

subsection \<open>The header: layout and round trip\<close>

lemma buildEIPHeader_bytes:
  assumes "0 \<le> command" "command < 65536" "0 \<le> len" "len < 65536"
    "0 \<le> handle" "handle < 4294967296" "0 \<le> status" "status < 4294967296"
    "0 \<le> options" "options < 4294967296" "length senderContext = 8"
  shows "buildEIPHeader command len handle status senderContext options =
     Inr (le_bytes 2 command @ le_bytes 2 len @ le_bytes 4 handle @ le_bytes 4 status
          @ senderContext @ le_bytes 4 options)"
proof -
  let ?c = "le_bytes 2 command" and ?l = "le_bytes 2 len" and ?s = "le_bytes 4 handle"
    and ?t = "le_bytes 4 status" and ?o = "le_bytes 4 options"
  have w: "toUInt16LE command = Inr ?c" "toUInt16LE len = Inr ?l"
    "toUInt32LE handle = Inr ?s" "toUInt32LE status = Inr ?t" "toUInt32LE options = Inr ?o"
    using assms by (simp_all add: toUInt16LE_def toUInt32LE_def writeUIntLE_ok)
  have 1: "buf_copy ?c (replicate 24 0) 0 = ?c @ replicate 22 0"
    using buf_copy_replicate [of "[]" 0 ?c 24 0] by simp
  have 2: "buf_copy ?l (?c @ replicate 22 0) 2 = ?c @ ?l @ replicate 20 0"
    using buf_copy_replicate [of ?c 2 ?l 22 0] by simp
  have 3: "buf_copy ?s (?c @ ?l @ replicate 20 0) 4 = ?c @ ?l @ ?s @ replicate 16 0"
    using buf_copy_replicate [of "?c @ ?l" 4 ?s 20 0] by simp
  have 4: "buf_copy ?t (?c @ ?l @ ?s @ replicate 16 0) 8 = ?c @ ?l @ ?s @ ?t @ replicate 12 0"
    using buf_copy_replicate [of "?c @ ?l @ ?s" 8 ?t 16 0] by simp
  have 5: "buf_copy senderContext (?c @ ?l @ ?s @ ?t @ replicate 12 0) 12
             = ?c @ ?l @ ?s @ ?t @ senderContext @ replicate 4 0"
    using buf_copy_replicate [of "?c @ ?l @ ?s @ ?t" 12 senderContext 12 0] assms(11) by simp
  have 6: "buf_copy ?o (?c @ ?l @ ?s @ ?t @ senderContext @ replicate 4 0) 20
             = ?c @ ?l @ ?s @ ?t @ senderContext @ ?o"
    using buf_copy_replicate [of "?c @ ?l @ ?s @ ?t @ senderContext" 20 ?o 4 0] assms(11) by simp
  show ?thesis
    unfolding buildEIPHeader_def w bindE_Inr 1 2 3 4 5 6 ..
qed

lemma parseEIPHeader_bytes:
  assumes "0 \<le> command" "command < 65536" "0 \<le> len" "len < 65536"
    "0 \<le> handle" "handle < 4294967296" "0 \<le> status" "status < 4294967296"
    "0 \<le> options" "options < 4294967296" "length senderContext = 8"
  shows "parseEIPHeader (le_bytes 2 command @ le_bytes 2 len @ le_bytes 4 handle
            @ le_bytes 4 status @ senderContext @ le_bytes 4 options @ payload) =
     Inr \<lparr> hdr_command = command, hdr_length = len, hdr_sessionHandle = handle,
           hdr_status = status, hdr_senderContext = senderContext, hdr_options = options \<rparr>"
proof -
  let ?c = "le_bytes 2 command" and ?l = "le_bytes 2 len" and ?s = "le_bytes 4 handle"
    and ?t = "le_bytes 4 status" and ?o = "le_bytes 4 options"
  let ?h = "?c @ ?l @ ?s @ ?t @ senderContext @ ?o @ payload"
  have 1: "fromUInt16LE ?h 0 = Inr command"
    unfolding fromUInt16LE_def using readUIntLE_at [of "[]" 0 command 2] assms(1,2) by simp
  have 2: "fromUInt16LE ?h 2 = Inr len"
    unfolding fromUInt16LE_def
    using readUIntLE_at [of ?c 2 len 2 "?s @ ?t @ senderContext @ ?o @ payload"] assms(3,4)
    by simp
  have 3: "fromUInt32LE ?h 4 = Inr handle"
    unfolding fromUInt32LE_def
    using readUIntLE_at [of "?c @ ?l" 4 handle 4 "?t @ senderContext @ ?o @ payload"]
      assms(5,6) by simp
  have 4: "fromUInt32LE ?h 8 = Inr status"
    unfolding fromUInt32LE_def
    using readUIntLE_at [of "?c @ ?l @ ?s" 8 status 4 "senderContext @ ?o @ payload"] assms(7,8)
    by simp
  have 5: "fromUInt32LE ?h 20 = Inr options"
    unfolding fromUInt32LE_def
    using readUIntLE_at [of "?c @ ?l @ ?s @ ?t @ senderContext" 20 options 4 payload]
      assms(9,10,11) by simp
  have 6: "buf_slice ?h 12 20 = senderContext"
    using buf_slice_append_mid [of "?c @ ?l @ ?s @ ?t" 12 20 senderContext "?o @ payload"]
      assms(11) by simp
  show ?thesis
    unfolding parseEIPHeader_def 1 2 3 4 5 6 bindE_Inr ..
qed

text \<open>
  Claim C4. For a command and a payload length in the 16-bit range, a session handle, a
  status and an options value in the 32-bit range, and a sender context of 8 bytes,
  \<open>parseEIPHeader\<close> applied to the output of \<open>buildEIPHeader\<close> returns exactly the six
  fields that were passed in.
\<close>

theorem header_roundtrip:
  assumes "0 \<le> command" "command < 65536" "0 \<le> len" "len < 65536"
    "0 \<le> handle" "handle < 4294967296" "0 \<le> status" "status < 4294967296"
    "0 \<le> options" "options < 4294967296" "length senderContext = 8"
  shows "bindE (buildEIPHeader command len handle status senderContext options)
           parseEIPHeader =
     Inr \<lparr> hdr_command = command, hdr_length = len, hdr_sessionHandle = handle,
           hdr_status = status, hdr_senderContext = senderContext, hdr_options = options \<rparr>"
proof -
  have "parseEIPHeader (le_bytes 2 command @ le_bytes 2 len @ le_bytes 4 handle
            @ le_bytes 4 status @ senderContext @ le_bytes 4 options @ []) =
     Inr \<lparr> hdr_command = command, hdr_length = len, hdr_sessionHandle = handle,
           hdr_status = status, hdr_senderContext = senderContext, hdr_options = options \<rparr>"
    using assms by (rule parseEIPHeader_bytes)
  then show ?thesis
    unfolding buildEIPHeader_bytes [OF assms] bindE_Inr by simp
qed

theorem header_roundtrip_witness:
  "bindE (buildEIPHeader 0x6F 22 305419896 101 [1, 2, 3, 4, 5, 6, 7, 8] 0) parseEIPHeader =
     Inr \<lparr> hdr_command = 0x6F, hdr_length = 22, hdr_sessionHandle = 305419896,
           hdr_status = 101, hdr_senderContext = [1, 2, 3, 4, 5, 6, 7, 8], hdr_options = 0 \<rparr>"
  using header_roundtrip [of "0x6F" 22 305419896 101 0 "[1, 2, 3, 4, 5, 6, 7, 8]"]
  by simp

subsection \<open>Type inference of the driver\<close>

lemma isInteger_iff: "isInteger x \<longleftrightarrow> (\<exists>n. x = Fin (of_int n))"
  by (cases x) (auto simp: isInteger_def)

lemma isInteger_of_int [simp]: "isInteger (Fin (of_int n))"
  by (simp add: isInteger_def)

lemma inferDataType_integral:
  "inferDataType (JNumber (Fin (of_int n))) =
     Inr (if - 128 \<le> n \<and> n \<le> 127 then CIP_SINT
          else if 0 \<le> n \<and> n \<le> 255 then CIP_USINT
          else if - 32768 \<le> n \<and> n \<le> 32767 then CIP_INT
          else if 0 \<le> n \<and> n \<le> 65535 then CIP_UINT
          else CIP_DINT)"
  by (simp add: inferDataType_def num_ge_def num_le_def)

text \<open>
  Claim C7. \<open>_inferDataType\<close> maps every boolean to BOOL (0xC1); an integral number \<open>n\<close>
  to SINT (0xC2) when \<open>-128 \<le> n \<le> 127\<close>, to USINT (0xC6) when \<open>128 \<le> n \<le> 255\<close>, to INT
  (0xC3) when \<open>-32768 \<le> n \<le> -129\<close> or \<open>256 \<le> n \<le> 32767\<close>, to UINT (0xC7) when
  \<open>32768 \<le> n \<le> 65535\<close>, and to DINT (0xC4) otherwise; every number that is not integral
  to REAL (0xCA); every string to STRING (0xDA); and it fails on the other values. (By
  \<open>isInteger_iff\<close> the integral numbers are exactly the \<open>Fin (of_int n)\<close>.)
\<close>

theorem inferDataType_table:
  "inferDataType (JBoolean b) = Inr CIP_BOOL
   \<and> (- 128 \<le> n \<and> n \<le> 127 \<longrightarrow> inferDataType (JNumber (Fin (of_int n))) = Inr CIP_SINT)
   \<and> (128 \<le> n \<and> n \<le> 255 \<longrightarrow> inferDataType (JNumber (Fin (of_int n))) = Inr CIP_USINT)
   \<and> ((- 32768 \<le> n \<and> n \<le> - 129) \<or> (256 \<le> n \<and> n \<le> 32767) \<longrightarrow>
        inferDataType (JNumber (Fin (of_int n))) = Inr CIP_INT)
   \<and> (32768 \<le> n \<and> n \<le> 65535 \<longrightarrow> inferDataType (JNumber (Fin (of_int n))) = Inr CIP_UINT)
   \<and> (n < - 32768 \<or> 65535 < n \<longrightarrow> inferDataType (JNumber (Fin (of_int n))) = Inr CIP_DINT)
   \<and> (\<not> isInteger x \<longrightarrow> inferDataType (JNumber x) = Inr CIP_REAL)
   \<and> inferDataType (JString s) = Inr CIP_STRING
   \<and> inferDataType JUndefined = Inl CannotInferDataType
   \<and> inferDataType JNull = Inl CannotInferDataType
   \<and> [CIP_BOOL, CIP_SINT, CIP_USINT, CIP_INT, CIP_UINT, CIP_DINT, CIP_REAL, CIP_STRING]
       = [0xC1, 0xC2, 0xC6, 0xC3, 0xC7, 0xC4, 0xCA, 0xDA]"
  unfolding inferDataType_integral
  by (simp add: inferDataType_def CIP_BOOL_def CIP_SINT_def CIP_USINT_def CIP_INT_def
      CIP_UINT_def CIP_DINT_def CIP_REAL_def CIP_STRING_def)

theorem inferDataType_table_witness:
  "inferDataType (JNumber (Fin 42)) = Inr CIP_SINT
   \<and> inferDataType (JNumber (Fin 200)) = Inr CIP_USINT
   \<and> inferDataType (JNumber (Fin (- 200))) = Inr CIP_INT
   \<and> inferDataType (JNumber (Fin 12345)) = Inr CIP_INT
   \<and> inferDataType (JNumber (Fin 40000)) = Inr CIP_UINT
   \<and> inferDataType (JNumber (Fin 100000)) = Inr CIP_DINT
   \<and> inferDataType (JNumber (Fin (- 40000))) = Inr CIP_DINT
   \<and> inferDataType (JNumber (Fin (3 / 2))) = Inr CIP_REAL
   \<and> inferDataType (JNumber NaN) = Inr CIP_REAL"
proof -
  have frac: "\<not> isInteger (Fin (3 / 2))"
    by code_simp
  have nan: "\<not> isInteger NaN"
    by (simp add: isInteger_def)
  show ?thesis
    using inferDataType_table [where n = 42] inferDataType_table [where n = 200]
      inferDataType_table [where n = "- 200"] inferDataType_table [where n = 12345]
      inferDataType_table [where n = 40000] inferDataType_table [where n = 100000]
      inferDataType_table [where n = "- 40000"]
      inferDataType_table [where x = "Fin (3 / 2)"] inferDataType_table [where x = NaN]
      frac nan
    by simp
qed

subsection \<open>The floating-point formats\<close>

lemma two_powi_nat: "0 \<le> k \<Longrightarrow> (2::rat) powi k = 2 ^ nat k"
  by (simp add: power_int_def)

lemma two_powi_less_iff: "(2::rat) powi a < 2 powi b \<longleftrightarrow> a < b"
  by (metis linorder_not_less nle_le one_less_numeral_iff power_int_increasing power_int_strict_increasing semiring_norm(76) order_less_imp_le)

lemma two_powi_le_iff: "(2::rat) powi a \<le> 2 powi b \<longleftrightarrow> a \<le> b"
  by (metis two_powi_less_iff linorder_not_less)

lemma floor_log2_bounds:
  assumes "0 < a"
  shows "2 powi (floor_log2 a) \<le> a \<and> a < 2 powi (floor_log2 a + 1)"
proof -
  obtain p q where pq: "quotient_of a = (p, q)" by (cases "quotient_of a")
  have q: "0 < q" using pq by (rule quotient_of_denom_pos)
  have a: "a = of_int p / of_int q" using pq by (rule quotient_of_div)
  have p: "0 < p" using assms q a by (simp add: zero_less_divide_iff)
  define bp where "bp = bitlen p"
  define bq where "bq = bitlen q"
  have bp1: "1 \<le> bp" using p bitlen_eq_zero_iff [of p] bitlen_nonneg [of p] by (simp add: bp_def)
  have bq1: "1 \<le> bq" using q bitlen_eq_zero_iff [of q] bitlen_nonneg [of q] by (simp add: bq_def)
  have "p < 2 ^ nat bp" "2 ^ nat (bp - 1) \<le> p" using bitlen_bounds [OF p] by (simp_all add: bp_def)
  hence "(of_int p :: rat) < of_int (2 ^ nat bp)" "(of_int (2 ^ nat (bp - 1)) :: rat) \<le> of_int p"
    by (simp_all only: of_int_less_iff of_int_le_iff)
  hence P: "(of_int p :: rat) < 2 powi bp" "(2::rat) powi (bp - 1) \<le> of_int p"
    using bp1 by (simp_all add: two_powi_nat)
  have "q < 2 ^ nat bq" "2 ^ nat (bq - 1) \<le> q" using bitlen_bounds [OF q] by (simp_all add: bq_def)
  hence "(of_int q :: rat) < of_int (2 ^ nat bq)" "(of_int (2 ^ nat (bq - 1)) :: rat) \<le> of_int q"
    by (simp_all only: of_int_less_iff of_int_le_iff)
  hence Q: "(of_int q :: rat) < 2 powi bq" "(2::rat) powi (bq - 1) \<le> of_int q"
    using bq1 by (simp_all add: two_powi_nat)
  have qpos: "(0::rat) < of_int q" using q by simp
  have ppos: "(0::rat) < of_int p" using p by simp
  have "a * of_int q = of_int p" using a qpos by simp
  have up: "a < 2 powi (bp - bq + 1)"
  proof -
    have "of_int p < (2::rat) powi (bp - bq + 1) * 2 powi (bq - 1)"
      using P(1) by (simp add: power_int_add [symmetric])
    also have "\<dots> \<le> 2 powi (bp - bq + 1) * of_int q"
      using Q(2) by (simp add: mult_left_mono)
    finally show ?thesis using qpos a by (simp add: pos_divide_less_eq)
  qed
  have lo: "2 powi (bp - bq - 1) < a"
  proof -
    have "(2::rat) powi (bp - bq - 1) * of_int q < 2 powi (bp - bq - 1) * 2 powi bq"
      using Q(1) by (simp add: mult_strict_left_mono)
    also have "\<dots> = 2 powi (bp - 1)" by (simp add: power_int_add [symmetric])
    also have "\<dots> \<le> of_int p" by (rule P(2))
    finally show ?thesis using qpos a by (simp add: pos_less_divide_eq)
  qed
  show ?thesis
    using up lo pq by (auto simp add: floor_log2_def Let_def bp_def bq_def)
qed

lemma floor_log2_eq:
  assumes "2 powi k \<le> a" and "a < 2 powi (k + 1)"
  shows "floor_log2 a = k"
proof -
  have "0 < a" using assms(1) by (rule less_le_trans [rotated]) simp
  from floor_log2_bounds [OF this]
  have "2 powi (floor_log2 a) \<le> a" "a < 2 powi (floor_log2 a + 1)" by simp_all
  hence "(2::rat) powi (floor_log2 a) < 2 powi (k + 1)" "(2::rat) powi k < 2 powi (floor_log2 a + 1)"
    using assms by linarith+
  thus ?thesis by (simp add: two_powi_less_iff)
qed

lemma round_half_even_of_int: "round_half_even (of_int n) = n"
  by (simp add: round_half_even_def)

lemma two_powi_split: "(2::rat) powi k = 2 ^ n * 2 powi (k - int n)"
proof -
  have "(2::rat) powi k = 2 powi (int n + (k - int n))" by simp
  also have "\<dots> = 2 powi (int n) * 2 powi (k - int n)" by (rule power_int_add) simp
  finally show ?thesis by simp
qed

lemma magnitude_bits_subnormal:
  assumes mt: "0 < mt" "mt < 2 ^ mantissa_bits F" and fmt: "exp_min F \<le> exp_max F"
  shows "magnitude_bits F (of_int mt * 2 powi (exp_min F - int (mantissa_bits F))) = mt"
proof -
  define u :: rat where "u = 2 powi (exp_min F - int (mantissa_bits F))"
  define a where "a = of_int mt * u"
  have u: "0 < u" by (simp add: u_def)
  have a0: "0 < a" using mt(1) u by (simp add: a_def)
  have "of_int mt < (2::rat) ^ mantissa_bits F"
    using mt(2) by (metis of_int_less_iff of_int_numeral of_int_power)
  hence "a < 2 ^ mantissa_bits F * u" using u by (simp add: a_def)
  also have "\<dots> = 2 powi (exp_min F)" unfolding u_def by (rule two_powi_split [symmetric])
  finally have "a < 2 powi (exp_min F)" .
  moreover have "2 powi (floor_log2 a) \<le> a" using floor_log2_bounds [OF a0] by simp
  ultimately have "(2::rat) powi (floor_log2 a) < 2 powi (exp_min F)" by linarith
  hence "floor_log2 a < exp_min F" by (simp add: two_powi_less_iff)
  hence e: "max (exp_min F) (min (exp_max F) (floor_log2 a)) = exp_min F" by simp
  have m: "round_half_even (a / u) = mt" using u by (simp add: a_def round_half_even_of_int)
  have "(2::int) ^ mantissa_bits F \<le> infinity_bits F"
    using fmt by (simp add: infinity_bits_def)
  hence "min (infinity_bits F) mt = mt" using mt(2) by simp
  moreover have "a \<noteq> 0" using a0 by simp
  ultimately have "magnitude_bits F a = mt"
    using e m [unfolded u_def] by (simp add: magnitude_bits_def Let_def)
  thus ?thesis by (simp add: a_def u_def)
qed

lemma magnitude_bits_normal:
  assumes ex: "1 \<le> ex" "ex < exp_max F - exp_min F + 2"
    and mt: "0 \<le> mt" "mt < 2 ^ mantissa_bits F"
  shows "magnitude_bits F (of_int (2 ^ mantissa_bits F + mt)
            * 2 powi (ex - 1 + exp_min F - int (mantissa_bits F)))
         = ex * 2 ^ mantissa_bits F + mt"
proof -
  define k where "k = ex - 1 + exp_min F"
  define u :: rat where "u = 2 powi (k - int (mantissa_bits F))"
  define a where "a = of_int (2 ^ mantissa_bits F + mt) * u"
  have u: "0 < u" by (simp add: u_def)
  have pk: "(2::rat) powi k = 2 ^ mantissa_bits F * u" unfolding u_def by (rule two_powi_split)
  have "(2::rat) powi (k + 1) = 2 powi k * 2 powi 1" by (rule power_int_add) simp
  hence pk1: "(2::rat) powi (k + 1) = 2 * 2 ^ mantissa_bits F * u" using pk by simp
  have lo: "(2::rat) ^ mantissa_bits F \<le> of_int (2 ^ mantissa_bits F + mt)" using mt(1) by simp
  have "of_int mt < (2::rat) ^ mantissa_bits F"
    using mt(2) by (metis of_int_less_iff of_int_numeral of_int_power)
  hence hi: "of_int (2 ^ mantissa_bits F + mt) < 2 * (2::rat) ^ mantissa_bits F" by simp
  have "2 powi k \<le> a" using lo u by (simp add: pk a_def)
  moreover have "a < 2 powi (k + 1)" using hi u by (simp add: pk1 a_def)
  ultimately have "floor_log2 a = k" by (rule floor_log2_eq)
  moreover have "exp_min F \<le> k" "k \<le> exp_max F" using ex by (simp_all add: k_def)
  ultimately have e: "max (exp_min F) (min (exp_max F) (floor_log2 a)) = k" by simp
  have m: "round_half_even (a / u) = 2 ^ mantissa_bits F + mt"
    using u by (simp add: a_def round_half_even_of_int del: of_int_add)
  have "(0::rat) < of_int (2 ^ mantissa_bits F + mt)"
    using lo by (rule less_le_trans [rotated]) simp
  hence "0 < a" unfolding a_def using u by (rule mult_pos_pos)
  hence a0: "a \<noteq> 0" by simp
  have "(k - exp_min F) * 2 ^ mantissa_bits F + (2 ^ mantissa_bits F + mt)
          = ex * 2 ^ mantissa_bits F + mt" by (simp add: k_def algebra_simps)
  moreover have "ex * 2 ^ mantissa_bits F + mt < infinity_bits F"
  proof -
    have "ex * 2 ^ mantissa_bits F + mt < (ex + 1) * 2 ^ mantissa_bits F"
      using mt(2) by (simp add: algebra_simps)
    also have "\<dots> \<le> (exp_max F - exp_min F + 2) * 2 ^ mantissa_bits F"
      using ex(2) by (intro mult_right_mono) simp_all
    finally show ?thesis by (simp add: infinity_bits_def)
  qed
  ultimately have "magnitude_bits F a = ex * 2 ^ mantissa_bits F + mt"
    using a0 e m [unfolded u_def] by (simp add: magnitude_bits_def Let_def)
  thus ?thesis by (simp add: a_def u_def k_def)
qed

lemma float_value_parts:
  assumes fmt: "exp_min F \<le> exp_max F"
    and sg: "sg = 0 \<or> sg = 1"
    and ex: "0 \<le> ex" "ex \<le> exp_max F - exp_min F + 2"
    and mt: "0 \<le> mt" "mt < 2 ^ mantissa_bits F"
  shows "float_value F (sg * sign_bit F + (ex * 2 ^ mantissa_bits F + mt)) =
           (if ex = exp_max F - exp_min F + 2 then
              (if mt \<noteq> 0 then NaN else if sg = 1 then NegInfinity else PosInfinity)
            else Fin (if sg = 1 then - float_magnitude F ex mt else float_magnitude F ex mt))"
proof -
  define M :: int where "M = 2 ^ mantissa_bits F"
  define S where "S = sign_bit F"
  define mag where "mag = ex * M + mt"
  have M: "0 < M" by (simp add: M_def)
  have S: "S = (exp_max F - exp_min F + 3) * M" by (simp add: S_def sign_bit_def M_def)
  have "mag < (ex + 1) * M" using mt(2) by (simp add: mag_def M_def algebra_simps)
  also have "\<dots> \<le> (exp_max F - exp_min F + 3) * M" using ex(2) M by (intro mult_right_mono) simp_all
  finally have mag: "mag < S" by (simp add: S)
  have mag0: "0 \<le> mag" using ex(1) mt(1) M by (simp add: mag_def)
  have S0: "0 < S" using mag mag0 by simp
  have d: "(sg * S + mag) div S = sg" using mag mag0 S0 by simp
  have m: "(sg * S + mag) mod S = mag" using mag mag0 S0 by simp
  have e: "mag div M = ex" using mt M by (simp add: mag_def M_def)
  have t: "mag mod M = mt" using mt M by (simp add: mag_def M_def)
  have "float_value F (sg * S + mag) =
           (if ex = exp_max F - exp_min F + 2 then
              (if mt \<noteq> 0 then NaN else if sg = 1 then NegInfinity else PosInfinity)
            else Fin (if sg = 1 then - float_magnitude F ex mt else float_magnitude F ex mt))"
    unfolding float_value_def S_def [symmetric] M_def [symmetric] Let_def d m e t
    using sg by (auto simp add: float_magnitude_def M_def)
  thus ?thesis by (simp add: S_def mag_def M_def)
qed

lemma int_div_less:
  fixes a b c :: int
  assumes "0 < c" and "a < b * c"
  shows "a div c < b"
proof (rule ccontr)
  assume "\<not> a div c < b"
  hence "b * c \<le> (a div c) * c" using assms(1) by (simp add: mult_right_mono)
  moreover have "a = (a div c) * c + a mod c" by simp
  moreover have "0 \<le> a mod c" using assms(1) by simp
  ultimately show False using assms(2) by linarith
qed

lemma float_parts_of_bits:
  assumes fmt: "exp_min F \<le> exp_max F" and bits: "0 \<le> bits" "bits < 2 * sign_bit F"
  obtains sg ex mt where "bits = sg * sign_bit F + (ex * 2 ^ mantissa_bits F + mt)"
    and "sg = 0 \<or> sg = 1" and "0 \<le> ex" and "ex \<le> exp_max F - exp_min F + 2"
    and "0 \<le> mt" and "mt < 2 ^ mantissa_bits F"
proof -
  define M :: int where "M = 2 ^ mantissa_bits F"
  define S where "S = sign_bit F"
  have M: "0 < M" by (simp add: M_def)
  have S: "S = (exp_max F - exp_min F + 3) * M" by (simp add: S_def sign_bit_def M_def)
  have S0: "0 < S" using fmt M by (simp add: S)
  define sg where "sg = bits div S"
  define mag where "mag = bits mod S"
  define ex where "ex = mag div M"
  define mt where "mt = mag mod M"
  have 1: "bits = sg * S + (ex * M + mt)" by (simp add: sg_def mag_def ex_def mt_def)
  have "0 \<le> sg" using bits(1) S0 by (simp add: sg_def pos_imp_zdiv_nonneg_iff)
  moreover have "sg < 2" unfolding sg_def using S0 bits(2) [folded S_def]
    by (rule int_div_less)
  ultimately have 2: "sg = 0 \<or> sg = 1" by auto
  have mag: "0 \<le> mag" "mag < S" using S0 by (simp_all add: mag_def)
  have 3: "0 \<le> ex" using mag(1) M by (simp add: ex_def pos_imp_zdiv_nonneg_iff)
  have "ex < exp_max F - exp_min F + 3" unfolding ex_def using M mag(2) [unfolded S]
    by (rule int_div_less)
  hence 4: "ex \<le> exp_max F - exp_min F + 2" by simp
  have 5: "0 \<le> mt" "mt < M" using M by (simp_all add: mt_def)
  show ?thesis using that [of sg ex mt] 1 2 3 4 5 by (simp add: S_def M_def)
qed

lemma float_value_float_bits:
  assumes fmt: "0 < mantissa_bits F" "exp_min F \<le> exp_max F"
    and bits: "0 \<le> bits" "bits < 2 * sign_bit F"
  shows "float_value F (float_bits F (float_value F bits)) = float_value F bits"
proof -
  obtain sg ex mt where parts: "bits = sg * sign_bit F + (ex * 2 ^ mantissa_bits F + mt)"
    and sg: "sg = 0 \<or> sg = 1" and ex: "0 \<le> ex" "ex \<le> exp_max F - exp_min F + 2"
    and mt: "0 \<le> mt" "mt < 2 ^ mantissa_bits F"
    using float_parts_of_bits [OF fmt(2) bits] by metis
  note v = float_value_parts [OF fmt(2)]
  define N where "N = exp_max F - exp_min F + 2"
  have half: "(0::int) < 2 ^ (mantissa_bits F - 1)" "(2::int) ^ (mantissa_bits F - 1) < 2 ^ mantissa_bits F"
    using fmt(1) by simp_all
  have Npos: "0 \<le> N" using fmt(2) by (simp add: N_def)
  show ?thesis
  proof (cases "ex = N")
    case True
    show ?thesis
    proof (cases "mt = 0")
      case False
      hence "float_value F bits = NaN"
        using v [OF sg ex mt] True by (simp add: parts N_def)
      moreover have "float_value F (0 * sign_bit F + (N * 2 ^ mantissa_bits F + 2 ^ (mantissa_bits F - 1))) = NaN"
        using v [of 0 N "2 ^ (mantissa_bits F - 1)"] half Npos by (simp add: N_def)
      ultimately show ?thesis by (simp add: float_bits_def infinity_bits_def N_def)
    next
      case mt0: True
      have "float_value F bits = (if sg = 1 then NegInfinity else PosInfinity)"
        using v [OF sg ex mt] True mt0 by (simp add: parts N_def)
      moreover have "float_value F (sign_bit F + infinity_bits F) = NegInfinity"
        using v [of 1 N 0] Npos by (simp add: N_def infinity_bits_def)
      moreover have "float_value F (infinity_bits F) = PosInfinity"
        using v [of 0 N 0] Npos by (simp add: N_def infinity_bits_def)
      ultimately show ?thesis by (simp add: float_bits_def)
    qed
  next
    case False
    hence exN: "ex < exp_max F - exp_min F + 2" using ex(2) by (simp add: N_def)
    define a where "a = float_magnitude F ex mt"
    have val: "float_value F bits = Fin (if sg = 1 then - a else a)"
      using v [OF sg ex mt] False by (simp add: parts N_def a_def)
    show ?thesis
    proof (cases "ex = 0 \<and> mt = 0")
      case True
      hence "a = 0" by (simp add: a_def float_magnitude_def)
      hence "float_value F bits = Fin 0" using val by simp
      moreover have "float_value F 0 = Fin 0"
        using v [of 0 0 0] fmt(2) by (simp add: float_magnitude_def)
      ultimately show ?thesis by (simp add: float_bits_def magnitude_bits_def)
    next
      case nz: False
      have m: "magnitude_bits F a = ex * 2 ^ mantissa_bits F + mt"
      proof (cases "ex = 0")
        case True
        thus ?thesis using magnitude_bits_subnormal [of mt F] nz mt fmt(2)
          by (simp add: a_def float_magnitude_def)
      next
        case False
        thus ?thesis using magnitude_bits_normal [of ex F mt] ex(1) exN mt
          by (simp add: a_def float_magnitude_def)
      qed
      have apos: "0 < a"
      proof (cases "ex = 0")
        case True
        thus ?thesis using nz mt(1) by (simp add: a_def float_magnitude_def)
      next
        case False
        have "(0::int) < 2 ^ mantissa_bits F" by simp
        hence "(0::int) < 2 ^ mantissa_bits F + mt" using mt(1) by linarith
        hence "(0::rat) < of_int (2 ^ mantissa_bits F + mt)" by (simp only: of_int_0_less_iff)
        thus ?thesis using False by (simp add: a_def float_magnitude_def del: of_int_add)
      qed
      have "float_bits F (float_value F bits) = bits"
        unfolding val using sg apos m by (auto simp add: float_bits_def parts)
      thus ?thesis by simp
    qed
  qed
qed

lemma float_bits_range:
  assumes fmt: "0 < mantissa_bits F" "exp_min F \<le> exp_max F"
  shows "0 \<le> float_bits F x \<and> float_bits F x < 2 * sign_bit F"
proof -
  define M :: int where "M = 2 ^ mantissa_bits F"
  have M: "0 < M" by (simp add: M_def)
  have I: "infinity_bits F = (exp_max F - exp_min F + 2) * M" by (simp add: infinity_bits_def M_def)
  have S: "sign_bit F = infinity_bits F + M" by (simp add: sign_bit_def I M_def algebra_simps)
  have I0: "0 \<le> infinity_bits F" using fmt(2) M by (simp add: I)
  have half: "(0::int) < 2 ^ (mantissa_bits F - 1)" "(2::int) ^ (mantissa_bits F - 1) < M"
    using fmt(1) by (simp_all add: M_def)
  have mb: "0 \<le> magnitude_bits F a \<and> magnitude_bits F a \<le> infinity_bits F" if "0 \<le> a" for a
  proof (cases "a = 0")
    case True
    thus ?thesis using I0 by (simp add: magnitude_bits_def)
  next
    case False
    define e where "e = max (exp_min F) (min (exp_max F) (floor_log2 a))"
    have "0 \<le> a / 2 powi (e - int (mantissa_bits F))" using that by simp
    hence "0 \<le> round_half_even (a / 2 powi (e - int (mantissa_bits F)))"
      by (auto simp add: round_half_even_def Let_def) 
    moreover have "0 \<le> (e - exp_min F) * M" using M by (simp add: e_def)
    ultimately show ?thesis using False I0
      by (simp add: magnitude_bits_def Let_def e_def [symmetric] M_def [symmetric])
  qed
  show ?thesis
  proof (cases x)
    case (Fin q)
    thus ?thesis using mb [of q] mb [of "- q"] M I0 by (auto simp add: float_bits_def S)
  qed (use half M I0 in \<open>auto simp add: float_bits_def S M_def [symmetric]\<close>)
qed


subsection \<open>The value codec\<close>

lemma js_trunc_of_int [simp]: "js_trunc (of_int i) = i"
  by (simp add: js_trunc_def)

lemma buf_slice_all [simp]: "buf_slice xs 0 (length xs) = xs"
  by (simp add: buf_slice_def)

lemma readUIntLE_le_bytes:
  "0 \<le> v \<Longrightarrow> v < 256 ^ n \<Longrightarrow> readUIntLE n (le_bytes n v) 0 = Inr v"
  using buf_slice_all [of "le_bytes n v"]
  by (simp add: readUIntLE_def le_value_le_bytes_unsigned)

lemma readIntLE_le_bytes:
  assumes "- (256 ^ n div 2) \<le> v" "v < 256 ^ n div 2" "0 < n"
  shows "readIntLE n (le_bytes n v) 0 = Inr v"
proof -
  let ?M = "(256 :: int) ^ n"
  have ev: "?M = 2 * (?M div 2)"
    using assms(3) by (cases n) simp_all
  have pos: "0 < ?M" by simp
  have u: "le_value (buf_slice (le_bytes n v) 0 (0 + n)) = v mod ?M"
    using buf_slice_all [of "le_bytes n v"] by (simp add: le_value_le_bytes)
  have "(if v mod ?M \<ge> ?M div 2 then v mod ?M - ?M else v mod ?M) = v"
  proof (cases "0 \<le> v")
    case True
    then have "v mod ?M = v" using assms(2) ev by (simp add: mod_pos_pos_trivial)
    then show ?thesis using assms(2) by simp
  next
    case False
    then have "0 \<le> v + ?M" "v + ?M < ?M"
      using assms(1) ev by linarith+
    then have "(v + ?M) mod ?M = v + ?M"
      by (rule mod_pos_pos_trivial)
    then have "v mod ?M = v + ?M"
      by simp
    then show ?thesis using assms(1) ev False by simp
  qed
  then show ?thesis
    unfolding readIntLE_def using u by (simp add: Let_def)
qed

lemma uint_byte_of_int: "0 \<le> i \<Longrightarrow> i \<le> 255 \<Longrightarrow> uint (word_of_int i :: byte) = i"
  by (simp add: uint_word_of_int)

lemma char_of_byte_of_char: "is_ascii c \<Longrightarrow> char_of_byte (byte_of_char c) = c"
proof -
  assume a: "is_ascii c"
  let ?n = "of_char c :: nat"
  have n: "?n < 128" using a by (simp add: is_ascii_def)
  have "(of_nat ?n :: byte) AND 0x7F = of_nat ?n"
  proof -
    have "(of_nat ?n :: byte) AND mask 7 = take_bit 7 (of_nat ?n)"
      by (simp add: take_bit_eq_mask)
    also have "\<dots> = of_nat (take_bit 7 ?n)"
      by (simp add: of_nat_take_bit)
    also have "take_bit 7 ?n = ?n"
      using n by (simp add: take_bit_nat_eq_self_iff)
    finally show ?thesis by (simp add: mask_eq_exp_minus_1)
  qed
  moreover have "unat (of_nat ?n :: byte) = ?n"
    using n by (simp add: unat_of_nat)
  ultimately show ?thesis
    by (simp add: char_of_byte_def byte_of_char_def)
qed

lemma map_char_of_byte_of_char:
  "list_all is_ascii s \<Longrightarrow> map char_of_byte (map byte_of_char s) = s"
  by (induction s) (simp_all add: char_of_byte_of_char)

lemma write_number_int:
  "lo \<le> i \<Longrightarrow> i \<le> hi \<Longrightarrow> write_number lo hi n (Fin (of_int i)) = Inr (le_bytes n i)"
  by (simp add: write_number_def)

lemma roundtrip_signed:
  assumes "dataType = (0xC2 :: int) \<and> n = (1 :: nat) \<and> lo = (- 128 :: int) \<and> hi = 127
         \<or> dataType = 0xC3 \<and> n = 2 \<and> lo = - 32768 \<and> hi = 32767
         \<or> dataType = 0xC4 \<and> n = 4 \<and> lo = - 2147483648 \<and> hi = 2147483647"
    and "lo \<le> i" "i \<le> hi"
  shows "encode_then_decode P dataType (JNumber (Fin (of_int i))) = Inr (JNumber (Fin (of_int i)))"
proof -
  have e: "encodeValue P dataType (JNumber (Fin (of_int i))) = Inr (le_bytes n i)"
    using assms write_number_int [of lo i hi n]
    by (auto simp: encodeValue_def ToNumber_def)
  have r: "readIntLE n (le_bytes n i) 0 = Inr i"
    using assms by (intro readIntLE_le_bytes) auto
  have d: "decodeValue P dataType (le_bytes n i) 0 = Inr (JNumber (Fin (of_int i)))"
    using assms(1) r by (auto simp: decodeValue_def)
  show ?thesis
    unfolding encode_then_decode_def e bindE_Inr by (rule d)
qed

lemma roundtrip_unsigned:
  assumes "dataType = (0xC7 :: int) \<and> n = (2 :: nat) \<and> hi = (65535 :: int)
         \<or> dataType = 0xC8 \<and> n = 4 \<and> hi = 4294967295"
    and "0 \<le> i" "i \<le> hi"
  shows "encode_then_decode P dataType (JNumber (Fin (of_int i))) = Inr (JNumber (Fin (of_int i)))"
proof -
  have e: "encodeValue P dataType (JNumber (Fin (of_int i))) = Inr (le_bytes n i)"
    using assms write_number_int [of 0 i hi n]
    by (auto simp: encodeValue_def ToNumber_def)
  have r: "readUIntLE n (le_bytes n i) 0 = Inr i"
    using assms by (intro readUIntLE_le_bytes) auto
  have d: "decodeValue P dataType (le_bytes n i) 0 = Inr (JNumber (Fin (of_int i)))"
    using assms(1) r by (auto simp: decodeValue_def)
  show ?thesis
    unfolding encode_then_decode_def e bindE_Inr by (rule d)
qed

lemma roundtrip_bool: "encode_then_decode P 0xC1 (JBoolean b) = Inr (JBoolean b)"
  by (simp add: encode_then_decode_def encodeValue_def decodeValue_def truthy_def buf_get_def)

lemma roundtrip_usint:
  "0 \<le> i \<Longrightarrow> i \<le> 255 \<Longrightarrow>
   encode_then_decode P 0xC6 (JNumber (Fin (of_int i))) = Inr (JNumber (Fin (of_int i)))"
  by (simp add: encode_then_decode_def encodeValue_def decodeValue_def ToNumber_def
      store_byte_def buf_get_def uint_byte_of_int)

lemma float_bits_binary32:
  "0 \<le> float_bits binary32 x \<and> float_bits binary32 x < 256 ^ 4"
  using float_bits_range [of binary32 x] by (simp add: binary32_def sign_bit_def)

lemma float_bits_binary64:
  "0 \<le> float_bits binary64 x \<and> float_bits binary64 x < 256 ^ 8"
  using float_bits_range [of binary64 x] by (simp add: binary64_def sign_bit_def)

lemma roundtrip_real:
  "encode_then_decode P 0xCA (JNumber x)
     = Inr (JNumber (float_value binary32 (float_bits binary32 x)))"
  using float_bits_binary32 [of x] readUIntLE_le_bytes [of "float_bits binary32 x" 4]
  by (simp add: encode_then_decode_def encodeValue_def decodeValue_def ToNumber_def
      del: le_bytes.simps)

lemma roundtrip_lreal:
  "encode_then_decode P 0xCB (JNumber x)
     = Inr (JNumber (float_value binary64 (float_bits binary64 x)))"
  using float_bits_binary64 [of x] readUIntLE_le_bytes [of "float_bits binary64 x" 8]
  by (simp add: encode_then_decode_def encodeValue_def decodeValue_def ToNumber_def
      del: le_bytes.simps)

lemma float_value_float_bits_32:
  "0 \<le> w \<Longrightarrow> w < 2 ^ 32 \<Longrightarrow>
   float_value binary32 (float_bits binary32 (float_value binary32 w)) = float_value binary32 w"
  by (rule float_value_float_bits) (simp_all add: binary32_def sign_bit_def)

lemma float_value_float_bits_64:
  "0 \<le> w \<Longrightarrow> w < 2 ^ 64 \<Longrightarrow>
   float_value binary64 (float_bits binary64 (float_value binary64 w)) = float_value binary64 w"
  by (rule float_value_float_bits) (simp_all add: binary64_def sign_bit_def)

lemma roundtrip_string:
  assumes "length s \<le> 255" "list_all is_ascii s"
  shows "encode_then_decode P 0xDA (JString s) = Inr (JString s)"
proof -
  let ?b = "of_nat (length s) # map byte_of_char s"
  have e: "encodeValue P 0xDA (JString s) = Inr ?b"
    using assms(1) by (simp add: encodeValue_def)
  have u: "unat (of_nat (length s) :: byte) = length s"
    using assms(1) by (simp add: unat_of_nat)
  have "toString_ascii ?b 1 (1 + length s) = s"
    using map_char_of_byte_of_char [OF assms(2)] by (simp add: toString_ascii_def buf_slice_def)
  then have d: "decodeValue P 0xDA ?b 0 = Inr (JString s)"
    by (simp add: decodeValue_def buf_get_def u)
  show ?thesis
    unfolding encode_then_decode_def e bindE_Inr by (rule d)
qed

lemma unsupported_type:
  assumes "t \<notin> {0xC1, 0xC2, 0xC3, 0xC4, 0xC6, 0xC7, 0xC8, 0xCA, 0xCB, 0xDA}"
  shows "encodeValue P t v = Inl (UnsupportedDataType t)"
    and "decodeValue P t buffer offset = Inl (UnsupportedDataType t)"
  using assms by (simp_all add: encodeValue_def decodeValue_def)

text \<open>
  Claim C2, as the code has it. For BOOL, the six integer types and STRING, decoding at
  offset 0 what \<open>encodeValue\<close> produced gives the value back: for booleans, for the
  integers of the signed and unsigned 8-, 16- and 32-bit ranges, and for ASCII strings of
  at most 255 characters. For REAL the result is the value rounded to the nearest
  32-bit float, so the value comes back exactly when it is a 32-bit float (the number
  that some 32-bit image \<open>w\<close> stands for; \<open>NaN\<close> comes back as \<open>NaN\<close>) and not otherwise. For
  LREAL the same holds with the 64-bit floats, which are the numbers of JavaScript. For
  every other type tag both functions fail with the unsupported-type error.
\<close>

theorem value_roundtrip:
  "encode_then_decode P 0xC1 (JBoolean b) = Inr (JBoolean b)
   \<and> (- 128 \<le> i \<and> i \<le> 127 \<longrightarrow>
        encode_then_decode P 0xC2 (JNumber (Fin (of_int i))) = Inr (JNumber (Fin (of_int i))))
   \<and> (- 32768 \<le> i \<and> i \<le> 32767 \<longrightarrow>
        encode_then_decode P 0xC3 (JNumber (Fin (of_int i))) = Inr (JNumber (Fin (of_int i))))
   \<and> (- 2147483648 \<le> i \<and> i \<le> 2147483647 \<longrightarrow>
        encode_then_decode P 0xC4 (JNumber (Fin (of_int i))) = Inr (JNumber (Fin (of_int i))))
   \<and> (0 \<le> i \<and> i \<le> 255 \<longrightarrow>
        encode_then_decode P 0xC6 (JNumber (Fin (of_int i))) = Inr (JNumber (Fin (of_int i))))
   \<and> (0 \<le> i \<and> i \<le> 65535 \<longrightarrow>
        encode_then_decode P 0xC7 (JNumber (Fin (of_int i))) = Inr (JNumber (Fin (of_int i))))
   \<and> (0 \<le> i \<and> i \<le> 4294967295 \<longrightarrow>
        encode_then_decode P 0xC8 (JNumber (Fin (of_int i))) = Inr (JNumber (Fin (of_int i))))
   \<and> encode_then_decode P 0xCA (JNumber x)
        = Inr (JNumber (float_value binary32 (float_bits binary32 x)))
   \<and> (0 \<le> w \<and> w < 2 ^ 32 \<longrightarrow>
        encode_then_decode P 0xCA (JNumber (float_value binary32 w))
          = Inr (JNumber (float_value binary32 w)))
   \<and> encode_then_decode P 0xCB (JNumber x)
        = Inr (JNumber (float_value binary64 (float_bits binary64 x)))
   \<and> (0 \<le> d \<and> d < 2 ^ 64 \<longrightarrow>
        encode_then_decode P 0xCB (JNumber (float_value binary64 d))
          = Inr (JNumber (float_value binary64 d)))
   \<and> (length s \<le> 255 \<and> list_all is_ascii s \<longrightarrow>
        encode_then_decode P 0xDA (JString s) = Inr (JString s))
   \<and> (t \<notin> {0xC1, 0xC2, 0xC3, 0xC4, 0xC6, 0xC7, 0xC8, 0xCA, 0xCB, 0xDA} \<longrightarrow>
        encodeValue P t v = Inl (UnsupportedDataType t)
        \<and> decodeValue P t buffer offset = Inl (UnsupportedDataType t))"
proof (intro conjI impI)
  show "encode_then_decode P 0xC1 (JBoolean b) = Inr (JBoolean b)"
    by (rule roundtrip_bool)
  show "encode_then_decode P 0xC2 (JNumber (Fin (of_int i))) = Inr (JNumber (Fin (of_int i)))"
    if "- 128 \<le> i \<and> i \<le> 127"
    using that roundtrip_signed [of "0xC2" 1 "- 128" 127 i P] by simp
  show "encode_then_decode P 0xC3 (JNumber (Fin (of_int i))) = Inr (JNumber (Fin (of_int i)))"
    if "- 32768 \<le> i \<and> i \<le> 32767"
    using that roundtrip_signed [of "0xC3" 2 "- 32768" 32767 i P] by simp
  show "encode_then_decode P 0xC4 (JNumber (Fin (of_int i))) = Inr (JNumber (Fin (of_int i)))"
    if "- 2147483648 \<le> i \<and> i \<le> 2147483647"
    using that roundtrip_signed [of "0xC4" 4 "- 2147483648" 2147483647 i P] by simp
  show "encode_then_decode P 0xC6 (JNumber (Fin (of_int i))) = Inr (JNumber (Fin (of_int i)))"
    if "0 \<le> i \<and> i \<le> 255"
    using that by (simp add: roundtrip_usint)
  show "encode_then_decode P 0xC7 (JNumber (Fin (of_int i))) = Inr (JNumber (Fin (of_int i)))"
    if "0 \<le> i \<and> i \<le> 65535"
    using that roundtrip_unsigned [of "0xC7" 2 65535 i P] by simp
  show "encode_then_decode P 0xC8 (JNumber (Fin (of_int i))) = Inr (JNumber (Fin (of_int i)))"
    if "0 \<le> i \<and> i \<le> 4294967295"
    using that roundtrip_unsigned [of "0xC8" 4 4294967295 i P] by simp
  show "encode_then_decode P 0xCA (JNumber x)
          = Inr (JNumber (float_value binary32 (float_bits binary32 x)))"
    by (rule roundtrip_real)
  show "encode_then_decode P 0xCA (JNumber (float_value binary32 w))
          = Inr (JNumber (float_value binary32 w))"
    if "0 \<le> w \<and> w < 2 ^ 32"
    using that by (simp only: roundtrip_real float_value_float_bits_32)
  show "encode_then_decode P 0xCB (JNumber x)
          = Inr (JNumber (float_value binary64 (float_bits binary64 x)))"
    by (rule roundtrip_lreal)
  show "encode_then_decode P 0xCB (JNumber (float_value binary64 d))
          = Inr (JNumber (float_value binary64 d))"
    if "0 \<le> d \<and> d < 2 ^ 64"
    using that by (simp only: roundtrip_lreal float_value_float_bits_64)
  show "encode_then_decode P 0xDA (JString s) = Inr (JString s)"
    if "length s \<le> 255 \<and> list_all is_ascii s"
    using that by (simp add: roundtrip_string)
  show "encodeValue P t v = Inl (UnsupportedDataType t)"
    if "t \<notin> {0xC1, 0xC2, 0xC3, 0xC4, 0xC6, 0xC7, 0xC8, 0xCA, 0xCB, 0xDA}"
    using that by (rule unsupported_type)
  show "decodeValue P t buffer offset = Inl (UnsupportedDataType t)"
    if "t \<notin> {0xC1, 0xC2, 0xC3, 0xC4, 0xC6, 0xC7, 0xC8, 0xCA, 0xCB, 0xDA}"
    using that by (rule unsupported_type)
qed

theorem value_roundtrip_witness:
  "encode_then_decode sample_platform 0xC1 (JBoolean True) = Inr (JBoolean True)
   \<and> encode_then_decode sample_platform 0xC2 (JNumber (Fin (- 5))) = Inr (JNumber (Fin (- 5)))
   \<and> encode_then_decode sample_platform 0xC3 (JNumber (Fin (- 1234))) = Inr (JNumber (Fin (- 1234)))
   \<and> encode_then_decode sample_platform 0xC4 (JNumber (Fin (- 123456))) = Inr (JNumber (Fin (- 123456)))
   \<and> encode_then_decode sample_platform 0xC6 (JNumber (Fin 200)) = Inr (JNumber (Fin 200))
   \<and> encode_then_decode sample_platform 0xC7 (JNumber (Fin 65535)) = Inr (JNumber (Fin 65535))
   \<and> encode_then_decode sample_platform 0xC8 (JNumber (Fin 4000000000)) = Inr (JNumber (Fin 4000000000))
   \<and> encode_then_decode sample_platform 0xCA (JNumber (Fin (1 / 10)))
        = Inr (JNumber (Fin (13421773 / 134217728)))
   \<and> float_value binary32 0x3FC00000 = Fin (3 / 2)
   \<and> encode_then_decode sample_platform 0xCA (JNumber (Fin (3 / 2))) = Inr (JNumber (Fin (3 / 2)))
   \<and> encode_then_decode sample_platform 0xCB (JNumber (Fin (1 / 10)))
        = Inr (JNumber (Fin (3602879701896397 / 36028797018963968)))
   \<and> float_value binary64 0x3FB999999999999A = Fin (3602879701896397 / 36028797018963968)
   \<and> encode_then_decode sample_platform 0xCB (JNumber (Fin (3602879701896397 / 36028797018963968)))
        = Inr (JNumber (Fin (3602879701896397 / 36028797018963968)))
   \<and> encode_then_decode sample_platform 0xDA (JString ''Hello PLC'') = Inr (JString ''Hello PLC'')
   \<and> encodeValue sample_platform 0xC5 (JNumber (Fin 1)) = Inl (UnsupportedDataType 0xC5)
   \<and> decodeValue sample_platform 0xC5 [1] 0 = Inl (UnsupportedDataType 0xC5)"
proof -
  have ascii: "list_all is_ascii ''Hello PLC''"
    by code_simp
  have f32: "float_value binary32 0x3FC00000 = Fin (3 / 2)"
    by code_simp
  have f64: "float_value binary64 0x3FB999999999999A = Fin (3602879701896397 / 36028797018963968)"
    by code_simp
  have r32: "float_value binary32 (float_bits binary32 (Fin (1 / 10))) = Fin (13421773 / 134217728)"
    by code_simp
  have r64: "float_value binary64 (float_bits binary64 (Fin (1 / 10)))
               = Fin (3602879701896397 / 36028797018963968)"
    by code_simp
  note t = value_roundtrip [where P = sample_platform and b = True and x = "Fin (1 / 10)"
      and w = "0x3FC00000" and d = "0x3FB999999999999A" and s = "''Hello PLC''" and t = "0xC5"
      and v = "JNumber (Fin 1)" and buffer = "[1]" and offset = 0]
  show ?thesis
    using t [where i = "- 5"] t [where i = "- 1234"] t [where i = "- 123456"] t [where i = 200]
      t [where i = 65535] t [where i = 4000000000] ascii f32 f64 r32 r64
    by simp
qed

text \<open>The claim as stated fails for REAL: 16777217 lies in the range of the type and is
  not a 32-bit float; it comes back as 16777216.\<close>

theorem real_roundtrip_rounds:
  "encode_then_decode sample_platform 0xCA (JNumber (Fin 16777217)) = Inr (JNumber (Fin 16777216))"
  by code_simp

subsection \<open>Paths: what the builder emits and what the parser reads\<close>

lemma bindE_eq_Inr: "bindE r f = Inr y \<longleftrightarrow> (\<exists>x. r = Inr x \<and> f x = Inr y)"
  by (cases r) simp_all

lemma split_dot_not_Nil [simp]: "split_dot s \<noteq> []"
  by (induction s) (auto split: list.splits)

lemma buildPath_loop_ok:
  "\<forall>c \<in> set segs. length c \<le> 255 \<Longrightarrow>
   buildPath_loop path segs = Inr (path @ concat (map symbolic_segment segs))"
  by (induction segs arbitrary: path) simp_all

lemma buildPath_loop_too_long:
  "\<exists>c \<in> set segs. length c > 255 \<Longrightarrow> \<exists>c \<in> set segs. buildPath_loop path segs = Inl (SegmentNameTooLong c)"
  by (induction segs arbitrary: path) auto

lemma buildPath_loop_Inr:
  "buildPath_loop path segs = Inr p \<Longrightarrow>
   p = path @ concat (map symbolic_segment segs) \<and> (\<forall>c \<in> set segs. length c \<le> 255)"
  by (induction path segs rule: buildPath_loop.induct) (auto split: if_splits)

lemma buildPath_Inr:
  "buildPath tagName False r = Inr p \<Longrightarrow> p = concat (map symbolic_segment (split_dot tagName))"
  by (auto simp: buildPath_def dest: buildPath_loop_Inr)

lemma parsePath_loop_0x91:
  "pos < length buffer \<Longrightarrow> buffer ! pos = 0x91 \<Longrightarrow>
   parsePath_loop buffer pos segs = Some (Inr (segs, Some pos))"
  by (subst parsePath_loop.simps) simp

lemma concat_symbolic_segments_head:
  "segs \<noteq> [] \<Longrightarrow> \<exists>rest. concat (map symbolic_segment segs) = 0x91 # rest"
  by (cases segs) (simp_all add: symbolic_segment_def)

lemma parsePath_buildPath_no_segments:
  assumes "buildPath tagName False r = Inr p"
  shows "parsePath p 0 = Some (Inr \<lparr> segments = [], path_length = Some 0 \<rparr>)"
    and "parseTagNameFromPath p = Some None"
proof -
  obtain rest where "p = 0x91 # rest"
    using buildPath_Inr [OF assms] concat_symbolic_segments_head [of "split_dot tagName"] by auto
  then have "parsePath_loop p 0 [] = Some (Inr ([], Some 0))"
    by (intro parsePath_loop_0x91) simp_all
  then show 1: "parsePath p 0 = Some (Inr \<lparr> segments = [], path_length = Some 0 \<rparr>)"
    by (simp add: parsePath_def)
  show "parseTagNameFromPath p = Some None"
    by (simp add: parseTagNameFromPath_def 1)
qed

text \<open>
  Claim C1 says that parsing a path built by \<open>buildPath\<close> yields one symbolic segment per
  component of the tag name, so that the simulator recovers the name. The code does not
  do that: \<open>buildPath\<close> starts every segment with the type byte \<open>0x91\<close>, whose high
  nibble is 9, while \<open>parsePath\<close> takes a segment for symbolic when the high nibble is 2
  and stops at any nibble above 3. For the tag \<open>TestBool\<close> of the repository's test
  suite: the parser returns no segment and length 0, and \<open>_parseTagNameFromPath\<close>
  returns \<open>null\<close>. (\<open>parsePath_buildPath_no_segments\<close> shows the same for every tag name.)
\<close>

theorem parsePath_of_built_path:
  "buildPath ''TestBool'' False False = Inr [0x91, 8, 0x54, 0x65, 0x73, 0x74, 0x42, 0x6F, 0x6F, 0x6C]
   \<and> parsePath [0x91, 8, 0x54, 0x65, 0x73, 0x74, 0x42, 0x6F, 0x6F, 0x6C] 0
       = Some (Inr \<lparr> segments = [], path_length = Some 0 \<rparr>)
   \<and> parseTagNameFromPath [0x91, 8, 0x54, 0x65, 0x73, 0x74, 0x42, 0x6F, 0x6F, 0x6C] = Some None"
proof -
  have b: "buildPath ''TestBool'' False False
             = Inr [0x91, 8, 0x54, 0x65, 0x73, 0x74, 0x42, 0x6F, 0x6F, 0x6C]"
    by code_simp
  show ?thesis
    using b parsePath_buildPath_no_segments [OF b] by simp
qed

subsection \<open>The layout of a SendRRData request\<close>

lemma length_buf_copy [simp]: "length (buf_copy src target pos) = length target"
  by (auto simp: buf_copy_def min_def)

lemma writeUIntLE_length: "writeUIntLE n v = Inr b \<Longrightarrow> length b = n"
  by (auto simp: writeUIntLE_def split: if_splits)

lemma toUInt16LE_length: "toUInt16LE v = Inr b \<Longrightarrow> length b = 2"
  by (simp add: toUInt16LE_def writeUIntLE_length)

lemma buildEIPHeader_length:
  "buildEIPHeader command len handle status senderContext options = Inr h \<Longrightarrow> length h = 24"
  by (auto simp: buildEIPHeader_def bindE_eq_Inr)

lemma interface_handle_length:
  "(case f of IHF_true \<Rightarrow> Inr (replicate 4 0)
     | IHF_number t \<Rightarrow> bindE (writeUIntLE 2 t) (\<lambda>b. Inr (buf_copy b (replicate 4 0) 2))
     | IHF_false \<Rightarrow> Inr (replicate 4 0)) = Inr (ih :: buffer) \<Longrightarrow> length ih = 4"
  by (cases f) (auto simp: bindE_eq_Inr)

lemma even_length_pad_path [simp]: "even (length (pad_path cipPath))"
  by (auto simp: pad_path_def)

lemma buildSendRRData_layout:
  assumes "buildSendRRData env handle cipService cipPath cipData senderContext f = Inr message"
  shows "\<exists>header interfaceHandle cipLength.
           length header = 24 \<and> length interfaceHandle = 4 \<and> length cipLength = 2
           \<and> length (pad_path cipPath) div 2 \<le> 255
           \<and> message = header @ interfaceHandle @ cipLength
               @ [word_of_int cipService, of_nat (length (pad_path cipPath) div 2)]
               @ pad_path cipPath @ cipData"
proof -
  from assms obtain ih where ih: "length (ih :: buffer) = 4"
    and rest: "(let paddedPath = pad_path cipPath; pathSize = length paddedPath div 2
     in if pathSize > 255 then Inl (CIPPathTooLong pathSize)
        else
          (let pathSizeBuffer = [of_nat pathSize];
               cipPacket = [word_of_int cipService] @ pathSizeBuffer @ paddedPath @ cipData
           in bindE (toUInt16LE (int (length cipPacket))) (\<lambda>cipLength.
              let rrData = ih @ cipLength @ cipPacket
              in bindE (case senderContext of
                          Some context \<Rightarrow> Inr context
                        | None \<Rightarrow> synthesize_context env) (\<lambda>context.
                 bindE (buildEIPHeader SEND_RR_DATA (int (length rrData)) handle 0 context 0)
                   (\<lambda>header. Inr (header @ rrData)))))) = Inr message"
    unfolding buildSendRRData_def bindE_eq_Inr using interface_handle_length by blast
  from rest have sz: "length (pad_path cipPath) div 2 \<le> 255"
    by (auto simp: Let_def split: if_splits)
  with rest obtain cl ctx h where cl: "length (cl :: buffer) = 2" and h: "length (h :: buffer) = 24"
    and m: "message = h @ ih @ cl @ [word_of_int cipService, of_nat (length (pad_path cipPath) div 2)]
               @ pad_path cipPath @ cipData"
    by (auto simp: Let_def bindE_eq_Inr dest!: toUInt16LE_length buildEIPHeader_length)
  show ?thesis
    using ih cl h m sz by blast
qed

lemma unat_path_size: "k \<le> 255 \<Longrightarrow> unat (of_nat k :: byte) = k"
  by (simp add: unat_of_nat)

lemma buildSendRRData_path_field:
  assumes "buildSendRRData env handle cipService cipPath cipData senderContext f = Inr message"
  shows "unat (message ! 31) = length (pad_path cipPath) div 2"
    and "buf_slice message 32 (32 + length (pad_path cipPath)) = pad_path cipPath"
proof -
  obtain h ih cl where l: "length (h :: buffer) = 24" "length (ih :: buffer) = 4"
      "length (cl :: buffer) = 2"
    and sz: "length (pad_path cipPath) div 2 \<le> 255"
    and m: "message = h @ ih @ cl
               @ [word_of_int cipService, of_nat (length (pad_path cipPath) div 2)]
               @ pad_path cipPath @ cipData"
    using buildSendRRData_layout [OF assms] by blast
  have m': "message = (h @ ih @ cl @ [word_of_int cipService])
               @ of_nat (length (pad_path cipPath) div 2) # pad_path cipPath @ cipData"
    using m by simp
  have "length (h @ ih @ cl @ [word_of_int cipService]) = 31"
    using l by simp
  then have "message ! 31 = of_nat (length (pad_path cipPath) div 2)"
    unfolding m' using nth_append_length [of "h @ ih @ cl @ [word_of_int cipService]"] by metis
  then show "unat (message ! 31) = length (pad_path cipPath) div 2"
    using sz by (simp add: unat_path_size)
  have m'': "message = (h @ ih @ cl @ [word_of_int cipService,
                 of_nat (length (pad_path cipPath) div 2)]) @ pad_path cipPath @ cipData"
    using m by simp
  show "buf_slice message 32 (32 + length (pad_path cipPath)) = pad_path cipPath"
    unfolding m'' using l by (simp add: buf_slice_def)
qed

text \<open>
  Claim C3 says that the output of \<open>buildPath\<close> always has even length. It has not:
  \<open>buildPath\<close> only concatenates the segments, and for the tag \<open>abc\<close> it returns five
  bytes.
\<close>

theorem buildPath_odd_length:
  "buildPath ''abc'' False False = Inr [0x91, 0x03, 0x61, 0x62, 0x63]
   \<and> \<not> even (length [0x91, 0x03, 0x61, 0x62, 0x63 :: byte])"
proof -
  have "buildPath ''abc'' False False = Inr [0x91, 0x03, 0x61, 0x62, 0x63]"
    by code_simp
  then show ?thesis by simp
qed

text \<open>
  Claim C3, amended. The output of \<open>buildPath\<close> without Message Router prefix is the
  concatenation of the segments, \<open>0x91\<close>, the length byte and the name for each
  component, without padding. It is \<open>buildSendRRData\<close> that pads the path it is given
  with a single zero byte when its length is odd: the padded path in the message (from
  byte 32 on) has even length, and the path-size byte of the message (byte 31) is the
  padded length divided by 2.
\<close>

theorem path_padding:
  assumes "buildPath tagName False False = Inr cipPath"
    and "buildSendRRData env handle cipService cipPath cipData senderContext f = Inr message"
  shows "cipPath = concat (map symbolic_segment (split_dot tagName))
     \<and> pad_path cipPath = (if even (length cipPath) then cipPath else cipPath @ [0])
     \<and> even (length (pad_path cipPath))
     \<and> unat (message ! 31) = length (pad_path cipPath) div 2
     \<and> buf_slice message 32 (32 + length (pad_path cipPath)) = pad_path cipPath"
proof -
  have 3: "pad_path cipPath = (if even (length cipPath) then cipPath else cipPath @ [0])"
    by (simp add: pad_path_def even_iff_mod_2_eq_zero)
  show ?thesis
    using buildPath_Inr [OF assms(1)] buildSendRRData_path_field [OF assms(2)] 3
      even_length_pad_path [of cipPath] by blast
qed

theorem path_padding_witness:
  "buildPath ''abc'' False False = Inr [0x91, 0x03, 0x61, 0x62, 0x63]
   \<and> buildSendRRData \<lparr>date_now = 0, random_scaled = 0\<rparr> 1 0x4C [0x91, 0x03, 0x61, 0x62, 0x63]
        [1, 0] (Some [1, 2, 3, 4, 5, 6, 7, 8]) IHF_false
       = Inr [111, 0, 16, 0, 1, 0, 0, 0, 0, 0, 0, 0, 1, 2, 3, 4, 5, 6, 7, 8, 0, 0,
              0, 0, 0, 0, 0, 0, 10, 0, 76, 3, 145, 3, 97, 98, 99, 0, 1, 0]
   \<and> pad_path [0x91, 0x03, 0x61, 0x62, 0x63] = [0x91, 0x03, 0x61, 0x62, 0x63, 0]
   \<and> even (length (pad_path [0x91, 0x03, 0x61, 0x62, 0x63]))
   \<and> unat ([111, 0, 16, 0, 1, 0, 0, 0, 0, 0, 0, 0, 1, 2, 3, 4, 5, 6, 7, 8, 0, 0,
              0, 0, 0, 0, 0, 0, 10, 0, 76, 3, 145, 3, 97, 98, 99, 0, 1, 0 :: byte] ! 31)
       = length (pad_path [0x91, 0x03, 0x61, 0x62, 0x63]) div 2
   \<and> length (pad_path [0x91, 0x03, 0x61, 0x62, 0x63]) div 2 = 3"
proof -
  have p: "buildPath ''abc'' False False = Inr [0x91, 0x03, 0x61, 0x62, 0x63]"
    by code_simp
  have b: "buildSendRRData \<lparr>date_now = 0, random_scaled = 0\<rparr> 1 0x4C [0x91, 0x03, 0x61, 0x62, 0x63]
        [1, 0] (Some [1, 2, 3, 4, 5, 6, 7, 8]) IHF_false
       = Inr [111, 0, 16, 0, 1, 0, 0, 0, 0, 0, 0, 0, 1, 2, 3, 4, 5, 6, 7, 8, 0, 0,
              0, 0, 0, 0, 0, 0, 10, 0, 76, 3, 145, 3, 97, 98, 99, 0, 1, 0]"
    by code_simp
  have e: "pad_path [0x91, 0x03, 0x61, 0x62, 0x63] = [0x91, 0x03, 0x61, 0x62, 0x63, 0]"
    "length (pad_path [0x91, 0x03, 0x61, 0x62, 0x63]) div 2 = 3"
    by (simp_all add: pad_path_def)
  show ?thesis
    using path_padding [OF p b] p b e by blast
qed

subsection \<open>Parsing a SendRRData response\<close>

lemma readUIntLE_Inr:
  "e = offset + n \<Longrightarrow> e \<le> length buffer \<Longrightarrow>
   readUIntLE n buffer offset = Inr (le_value (buf_slice buffer offset e))"
  by (simp add: readUIntLE_def)

lemma parseEIPHeader_Inr:
  assumes "24 \<le> length buffer"
  shows "parseEIPHeader buffer =
     Inr \<lparr> hdr_command = le_value (buf_slice buffer 0 2),
           hdr_length = le_value (buf_slice buffer 2 4),
           hdr_sessionHandle = le_value (buf_slice buffer 4 8),
           hdr_status = le_value (buf_slice buffer 8 12),
           hdr_senderContext = buf_slice buffer 12 20,
           hdr_options = le_value (buf_slice buffer 20 24) \<rparr>"
proof -
  have 1: "fromUInt16LE buffer 0 = Inr (le_value (buf_slice buffer 0 2))"
    unfolding fromUInt16LE_def using readUIntLE_Inr [of 2 0 2 buffer] assms by simp
  have 2: "fromUInt16LE buffer 2 = Inr (le_value (buf_slice buffer 2 4))"
    unfolding fromUInt16LE_def using readUIntLE_Inr [of 4 2 2 buffer] assms by simp
  have 3: "fromUInt32LE buffer 4 = Inr (le_value (buf_slice buffer 4 8))"
    unfolding fromUInt32LE_def using readUIntLE_Inr [of 8 4 4 buffer] assms by simp
  have 4: "fromUInt32LE buffer 8 = Inr (le_value (buf_slice buffer 8 12))"
    unfolding fromUInt32LE_def using readUIntLE_Inr [of 12 8 4 buffer] assms by simp
  have 5: "fromUInt32LE buffer 20 = Inr (le_value (buf_slice buffer 20 24))"
    unfolding fromUInt32LE_def using readUIntLE_Inr [of 24 20 4 buffer] assms by simp
  show ?thesis
    unfolding parseEIPHeader_def 1 2 3 4 5 bindE_Inr ..
qed

text \<open>
  Claim C5. Take a buffer that holds a SendRRData response: at least the 24 header bytes
  with command \<open>0x6F\<close>, the interface handle, the CIP length and the CIP status byte (31
  bytes). If the status field of the header (bytes 8 to 11) is not zero,
  \<open>parseSendRRDataResponse\<close> fails with the protocol-status error that carries this
  status. If it is zero and the CIP status (byte 30) is not, it fails with the CIP-status
  error of that code. If both are zero it returns the CIP payload: the bytes from 31 up
  to the declared CIP length less the status byte, so \<open>cipLength - 1\<close> bytes when the
  buffer holds them all.
\<close>

theorem parseSendRRDataResponse_cases:
  assumes "31 \<le> length buffer"
    and "le_value (buf_slice buffer 0 2) = SEND_RR_DATA"
    and "status = le_value (buf_slice buffer 8 12)"
    and "cipLength = le_value (buf_slice buffer 28 30)"
    and "cipStatus = buffer ! 30"
  shows "(status \<noteq> 0 \<longrightarrow> parseSendRRDataResponse buffer = Inl (EIPStatusError status))
     \<and> (status = 0 \<and> cipStatus \<noteq> 0 \<longrightarrow>
          parseSendRRDataResponse buffer = Inl (CIPStatusError (uint cipStatus)))
     \<and> (status = 0 \<and> cipStatus = 0 \<longrightarrow>
          parseSendRRDataResponse buffer =
            Inr \<lparr> rr_sessionHandle = le_value (buf_slice buffer 4 8),
                  rr_interfaceHandle = le_value (buf_slice buffer 24 28),
                  rr_cipStatus = 0,
                  rr_cipData = buf_slice buffer 31 (30 + nat cipLength) \<rparr>
          \<and> (1 \<le> cipLength \<and> 30 + nat cipLength \<le> length buffer \<longrightarrow>
               length (buf_slice buffer 31 (30 + nat cipLength)) = nat cipLength - 1))"
proof -
  have h: "parseEIPHeader buffer =
     Inr \<lparr> hdr_command = SEND_RR_DATA,
           hdr_length = le_value (buf_slice buffer 2 4),
           hdr_sessionHandle = le_value (buf_slice buffer 4 8),
           hdr_status = status,
           hdr_senderContext = buf_slice buffer 12 20,
           hdr_options = le_value (buf_slice buffer 20 24) \<rparr>"
    using assms by (simp add: parseEIPHeader_Inr)
  have r: "fromUInt32LE buffer 24 = Inr (le_value (buf_slice buffer 24 28))"
    "fromUInt16LE buffer 28 = Inr cipLength"
    unfolding fromUInt32LE_def fromUInt16LE_def
    using readUIntLE_Inr [of 28 24 4 buffer] readUIntLE_Inr [of 30 28 2 buffer] assms by simp_all
  have g: "buf_get buffer 30 = Some cipStatus"
    using assms by (simp add: buf_get_def)
  have s: "31 + nat cipLength - 1 = 30 + nat cipLength"
    by simp
  show ?thesis
    unfolding parseSendRRDataResponse_def h bindE_Inr r g s
    by (auto simp: buf_slice_def)
qed

theorem parseSendRRDataResponse_cases_witness:
  "parseSendRRDataResponse
     [0x6F, 0, 0, 0, 1, 0, 0, 0, 0x65, 0, 0, 0, 1, 2, 3, 4, 5, 6, 7, 8, 0, 0, 0, 0,
      0, 0, 0, 0, 1, 0, 0]
     = Inl (EIPStatusError 0x65)
   \<and> parseSendRRDataResponse
     [0x6F, 0, 7, 0, 1, 0, 0, 0, 0, 0, 0, 0, 1, 2, 3, 4, 5, 6, 7, 8, 0, 0, 0, 0,
      0, 0, 0, 0, 1, 0, 0x16]
     = Inl (CIPStatusError 0x16)
   \<and> parseSendRRDataResponse
     [0x6F, 0, 11, 0, 1, 0, 0, 0, 0, 0, 0, 0, 1, 2, 3, 4, 5, 6, 7, 8, 0, 0, 0, 0,
      0, 0, 0, 0, 5, 0, 0, 0xC1, 1, 0, 0xFF]
     = Inr \<lparr> rr_sessionHandle = 1, rr_interfaceHandle = 0, rr_cipStatus = 0,
             rr_cipData = [0xC1, 1, 0, 0xFF] \<rparr>"
proof -
  let ?b1 = "[0x6F, 0, 0, 0, 1, 0, 0, 0, 0x65, 0, 0, 0, 1, 2, 3, 4, 5, 6, 7, 8, 0, 0, 0, 0,
      0, 0, 0, 0, 1, 0, 0] :: buffer"
  let ?b2 = "[0x6F, 0, 7, 0, 1, 0, 0, 0, 0, 0, 0, 0, 1, 2, 3, 4, 5, 6, 7, 8, 0, 0, 0, 0,
      0, 0, 0, 0, 1, 0, 0x16] :: buffer"
  let ?b3 = "[0x6F, 0, 11, 0, 1, 0, 0, 0, 0, 0, 0, 0, 1, 2, 3, 4, 5, 6, 7, 8, 0, 0, 0, 0,
      0, 0, 0, 0, 5, 0, 0, 0xC1, 1, 0, 0xFF] :: buffer"
  have 1: "parseSendRRDataResponse ?b1 = Inl (EIPStatusError 0x65)"
    using parseSendRRDataResponse_cases [where buffer = ?b1, OF _ _ refl refl refl]
    by (simp add: buf_slice_def SEND_RR_DATA_def)
  have 2: "parseSendRRDataResponse ?b2 = Inl (CIPStatusError 0x16)"
    using parseSendRRDataResponse_cases [where buffer = ?b2, OF _ _ refl refl refl]
    by (simp add: buf_slice_def SEND_RR_DATA_def)
  have 3: "parseSendRRDataResponse ?b3
     = Inr \<lparr> rr_sessionHandle = 1, rr_interfaceHandle = 0, rr_cipStatus = 0,
             rr_cipData = [0xC1, 1, 0, 0xFF] \<rparr>"
    using parseSendRRDataResponse_cases [where buffer = ?b3, OF _ _ refl refl refl]
    by (simp add: buf_slice_def SEND_RR_DATA_def)
  show ?thesis
    using 1 2 3 by blast
qed

subsection \<open>Building a SendRRData request: when it fails and when it succeeds\<close>

lemma buildPath_too_long:
  assumes "\<exists>c \<in> set (split_dot tagName). length c > 255"
  shows "\<exists>c \<in> set (split_dot tagName). length c > 255 \<and>
           buildPath tagName includeMessageRouter useCompactRouter = Inl (SegmentNameTooLong c)"
proof -
  have "\<exists>c \<in> set segs. length c > 255 \<and> buildPath_loop path segs = Inl (SegmentNameTooLong c)"
    if "\<exists>c \<in> set segs. length c > 255" for segs path
    using that by (induction segs arbitrary: path) auto
  then show ?thesis
    using assms unfolding buildPath_def by blast
qed

lemma buildPath_ok:
  assumes "\<forall>c \<in> set (split_dot tagName). length c \<le> 255"
  shows "buildPath tagName False useCompactRouter
           = Inr (concat (map symbolic_segment (split_dot tagName)))"
  using assms by (simp add: buildPath_def buildPath_loop_ok)

lemma buildSendRRData_path_too_long:
  assumes "255 < length (pad_path cipPath) div 2"
  shows "\<exists>e. buildSendRRData env handle cipService cipPath cipData senderContext f = Inl e"
    and "(case f of IHF_number t \<Rightarrow> 0 \<le> t \<and> t < 65536 | _ \<Rightarrow> True) \<Longrightarrow>
         buildSendRRData env handle cipService cipPath cipData senderContext f
           = Inl (CIPPathTooLong (length (pad_path cipPath) div 2))"
  using assms
  by (cases f; auto simp: buildSendRRData_def bindE_def Let_def writeUIntLE_ok split: sum.splits)+

lemma buildEIPHeader_ok:
  assumes "0 \<le> command" "command < 65536" "0 \<le> len" "len < 65536"
    "0 \<le> handle" "handle < 4294967296" "0 \<le> status" "status < 4294967296"
    "0 \<le> options" "options < 4294967296"
  shows "\<exists>h. buildEIPHeader command len handle status senderContext options = Inr h"
  using assms by (simp add: buildEIPHeader_def toUInt16LE_def toUInt32LE_def writeUIntLE_ok)

lemma buildSendRRData_ok:
  assumes "length (pad_path cipPath) div 2 \<le> 255"
    and "0 \<le> handle" "handle < 4294967296"
    and "case f of IHF_number t \<Rightarrow> 0 \<le> t \<and> t < 65536 | _ \<Rightarrow> True"
    and "8 + length (pad_path cipPath) + length cipData \<le> 65535"
  shows "\<exists>message.
           buildSendRRData env handle cipService cipPath cipData (Some context) f = Inr message"
proof -
  obtain ih where ih: "(case f of IHF_true \<Rightarrow> Inr (replicate 4 0)
     | IHF_number t \<Rightarrow> bindE (writeUIntLE 2 t) (\<lambda>b. Inr (buf_copy b (replicate 4 0) 2))
     | IHF_false \<Rightarrow> Inr (replicate 4 0)) = Inr (ih :: buffer)"
    using assms(4) by (cases f) (auto simp: writeUIntLE_ok)
  have l4: "length ih = 4"
    using ih by (rule interface_handle_length)
  let ?packet = "[word_of_int cipService] @ [of_nat (length (pad_path cipPath) div 2)]
                   @ pad_path cipPath @ cipData"
  have cl: "toUInt16LE (int (length ?packet)) = Inr (le_bytes 2 (int (length ?packet)))"
    using assms(5) by (simp add: toUInt16LE_def writeUIntLE_ok)
  let ?rr = "ih @ le_bytes 2 (int (length ?packet)) @ ?packet"
  obtain h where h: "buildEIPHeader SEND_RR_DATA (int (length ?rr)) handle 0 context 0 = Inr h"
    using buildEIPHeader_ok [of SEND_RR_DATA "int (length ?rr)" handle 0 0 "context"]
      assms(2,3,5) l4 by (auto simp: SEND_RR_DATA_def)
  show ?thesis
    unfolding buildSendRRData_def ih bindE_Inr Let_def
    using assms(1) cl h by (simp del: le_bytes.simps)
qed

lemma buildSendRRData_negative_timestamp:
  assumes "js_bitand (date_now env) 0xFFFFFFFF < 0"
    and "length (pad_path cipPath) div 2 \<le> 255"
    and "8 + length (pad_path cipPath) + length cipData \<le> 65535"
  shows "buildSendRRData env handle cipService cipPath cipData None IHF_false = Inl RangeError"
proof -
  have s: "synthesize_context env = Inl RangeError"
    using assms(1) by (simp add: synthesize_context_def writeUIntLE_def)
  let ?packet = "[word_of_int cipService] @ [of_nat (length (pad_path cipPath) div 2)]
                   @ pad_path cipPath @ cipData"
  have cl: "toUInt16LE (int (length ?packet)) = Inr (le_bytes 2 (int (length ?packet)))"
    using assms(3) by (simp add: toUInt16LE_def writeUIntLE_ok)
  show ?thesis
    unfolding buildSendRRData_def Let_def
    using assms(2) cl s by (simp del: le_bytes.simps)
qed

lemma buildSendRRData_packet_too_long:
  assumes "65535 < 2 + length (pad_path cipPath) + length cipData"
  shows "\<exists>e. buildSendRRData env handle cipService cipPath cipData senderContext f = Inl e"
proof -
  have "toUInt16LE (int (length ([word_of_int cipService :: byte]
           @ [of_nat (length (pad_path cipPath) div 2)] @ pad_path cipPath @ cipData)))
         = Inl RangeError"
    using assms by (simp add: toUInt16LE_def writeUIntLE_def)
  then show ?thesis
    by (cases f) (auto simp: buildSendRRData_def bindE_def Let_def split: sum.splits)
qed

lemma split_dot_no_dot: "CHR ''.'' \<notin> set s \<Longrightarrow> split_dot s = [s]"
  by (induction s) auto

text \<open>
  Claim C6 says that \<open>buildSendRRData\<close> succeeds whenever the path is short enough. It
  does not: with a path of two words it throws when a timeout of 70000 ms is passed as
  interface-handle format (the field has 16 bits), when the session handle is \<open>2^32\<close>,
  and, with no sender context passed, at the time 1700000000000 ms, because
  \<open>timestamp & 0xFFFFFFFF\<close> is a signed 32-bit value, here negative, and
  \<open>writeUInt32LE\<close> rejects it.
\<close>

theorem buildSendRRData_short_path_failures:
  "length (pad_path [0x91, 1, 0x41]) div 2 = 2
   \<and> buildSendRRData \<lparr>date_now = 0, random_scaled = 0\<rparr> 1 READ_TAG [0x91, 1, 0x41] [1, 0]
        (Some [1, 2, 3, 4, 5, 6, 7, 8]) (IHF_number 70000) = Inl RangeError
   \<and> buildSendRRData \<lparr>date_now = 0, random_scaled = 0\<rparr> 4294967296 READ_TAG [0x91, 1, 0x41] [1, 0]
        (Some [1, 2, 3, 4, 5, 6, 7, 8]) IHF_false = Inl RangeError
   \<and> buildSendRRData \<lparr>date_now = 1700000000000, random_scaled = 0\<rparr> 1 READ_TAG
        [0x91, 1, 0x41] [1, 0] None IHF_false = Inl RangeError"
  by code_simp

text \<open>
  Claim C6, amended. \<open>buildPath\<close> fails when a component of the tag name is longer than
  255 characters and succeeds otherwise. \<open>buildSendRRData\<close> fails whenever the padded
  path is longer than 255 words. When it is not, and the session handle is a 32-bit
  value, a timeout passed as interface-handle format is a 16-bit value, the CIP packet
  and the payload fit their 16-bit length fields (path and data together at most 65527
  bytes) and a sender context is passed, \<open>buildSendRRData\<close> succeeds, and the path-size
  byte of the message (byte 31) is the padded length divided by 2.
\<close>

theorem build_path_limits:
  "((\<exists>c \<in> set (split_dot tagName). length c > 255) \<longrightarrow>
      (\<exists>c \<in> set (split_dot tagName). length c > 255 \<and>
         buildPath tagName includeMessageRouter useCompactRouter = Inl (SegmentNameTooLong c)))
   \<and> ((\<forall>c \<in> set (split_dot tagName). length c \<le> 255) \<longrightarrow>
      (\<exists>p. buildPath tagName includeMessageRouter useCompactRouter = Inr p))
   \<and> (255 < length (pad_path cipPath) div 2 \<longrightarrow>
      (\<exists>e. buildSendRRData env handle cipService cipPath cipData senderContext f = Inl e)
      \<and> ((case f of IHF_number t \<Rightarrow> 0 \<le> t \<and> t < 65536 | _ \<Rightarrow> True) \<longrightarrow>
           buildSendRRData env handle cipService cipPath cipData senderContext f
             = Inl (CIPPathTooLong (length (pad_path cipPath) div 2))))
   \<and> (length (pad_path cipPath) div 2 \<le> 255
        \<and> 0 \<le> handle \<and> handle < 4294967296
        \<and> (case f of IHF_number t \<Rightarrow> 0 \<le> t \<and> t < 65536 | _ \<Rightarrow> True)
        \<and> 8 + length (pad_path cipPath) + length cipData \<le> 65535 \<longrightarrow>
      (\<exists>message.
         buildSendRRData env handle cipService cipPath cipData (Some ctx) f = Inr message
         \<and> unat (message ! 31) = length (pad_path cipPath) div 2))"
proof (intro conjI impI)
  show "\<exists>c \<in> set (split_dot tagName). length c > 255 \<and>
         buildPath tagName includeMessageRouter useCompactRouter = Inl (SegmentNameTooLong c)"
    if "\<exists>c \<in> set (split_dot tagName). length c > 255"
    using that by (rule buildPath_too_long)
  show "\<exists>p. buildPath tagName includeMessageRouter useCompactRouter = Inr p"
    if "\<forall>c \<in> set (split_dot tagName). length c \<le> 255"
    using that by (simp add: buildPath_def buildPath_loop_ok)
  show "\<exists>e. buildSendRRData env handle cipService cipPath cipData senderContext f = Inl e"
    if "255 < length (pad_path cipPath) div 2"
    using that by (rule buildSendRRData_path_too_long)
  show "buildSendRRData env handle cipService cipPath cipData senderContext f
          = Inl (CIPPathTooLong (length (pad_path cipPath) div 2))"
    if "255 < length (pad_path cipPath) div 2"
      and "case f of IHF_number t \<Rightarrow> 0 \<le> t \<and> t < 65536 | _ \<Rightarrow> True"
    using that by (rule buildSendRRData_path_too_long)
  show "\<exists>message.
         buildSendRRData env handle cipService cipPath cipData (Some ctx) f = Inr message
         \<and> unat (message ! 31) = length (pad_path cipPath) div 2"
    if "length (pad_path cipPath) div 2 \<le> 255
        \<and> 0 \<le> handle \<and> handle < 4294967296
        \<and> (case f of IHF_number t \<Rightarrow> 0 \<le> t \<and> t < 65536 | _ \<Rightarrow> True)
        \<and> 8 + length (pad_path cipPath) + length cipData \<le> 65535"
  proof -
    from that have a: "length (pad_path cipPath) div 2 \<le> 255"
      and b: "0 \<le> handle" "handle < 4294967296"
      and c: "case f of IHF_number t \<Rightarrow> 0 \<le> t \<and> t < 65536 | _ \<Rightarrow> True"
      and d: "8 + length (pad_path cipPath) + length cipData \<le> 65535"
      by blast+
    obtain message where
      "buildSendRRData env handle cipService cipPath cipData (Some ctx) f = Inr message"
      using buildSendRRData_ok [OF a b c d] by blast
    then show ?thesis
      using buildSendRRData_path_field(1) by blast
  qed
qed

theorem build_path_limits_witness:
  "buildPath (replicate 256 CHR ''a'') False False
       = Inl (SegmentNameTooLong (replicate 256 CHR ''a''))
   \<and> (\<exists>p. buildPath ''Program:Main.Tag'' False False = Inr p)
   \<and> buildSendRRData \<lparr>date_now = 0, random_scaled = 0\<rparr> 1 READ_TAG (replicate 511 0) [1, 0]
        (Some [1, 2, 3, 4, 5, 6, 7, 8]) IHF_false = Inl (CIPPathTooLong 256)
   \<and> (\<exists>message. buildSendRRData \<lparr>date_now = 0, random_scaled = 0\<rparr> 1 READ_TAG [0x91, 1, 0x41]
            [1, 0] (Some [1, 2, 3, 4, 5, 6, 7, 8]) (IHF_number 5000) = Inr message
          \<and> unat (message ! 31) = 2)"
proof -
  have 1: "\<exists>c \<in> set (split_dot (replicate 256 CHR ''a'')). length c > 255"
    by (simp add: split_dot_no_dot)
  have 2: "\<forall>c \<in> set (split_dot ''Program:Main.Tag''). length c \<le> 255"
    by simp
  have 3: "255 < length (pad_path (replicate 511 0)) div 2"
    by (simp add: pad_path_def)
  have 4: "length (pad_path [0x91, 1, 0x41]) div 2 = 2"
    by (simp add: pad_path_def)
  have 5: "length (pad_path [0x91, 1, 0x41]) div 2 \<le> 255
        \<and> (0 :: int) \<le> 1 \<and> (1 :: int) < 4294967296
        \<and> (case IHF_number 5000 of IHF_number t \<Rightarrow> 0 \<le> t \<and> t < 65536 | _ \<Rightarrow> True)
        \<and> 8 + length (pad_path [0x91, 1, 0x41]) + length [1, 0 :: byte] \<le> 65535"
    by (simp add: pad_path_def)
  have w1: "buildPath (replicate 256 CHR ''a'') False False
       = Inl (SegmentNameTooLong (replicate 256 CHR ''a''))"
    using build_path_limits [where tagName = "replicate 256 CHR ''a''"
        and includeMessageRouter = False and useCompactRouter = False] 1
    by (simp add: split_dot_no_dot)
  have w2: "\<exists>p. buildPath ''Program:Main.Tag'' False False = Inr p"
    using build_path_limits [where tagName = "''Program:Main.Tag''"
        and includeMessageRouter = False and useCompactRouter = False] 2
    by blast
  have words: "length (pad_path (replicate 511 0)) div 2 = 256"
    by (simp add: pad_path_def)
  have w3: "buildSendRRData \<lparr>date_now = 0, random_scaled = 0\<rparr> 1 READ_TAG (replicate 511 0)
            [1, 0] (Some [1, 2, 3, 4, 5, 6, 7, 8]) IHF_false = Inl (CIPPathTooLong 256)"
    using build_path_limits [where cipPath = "replicate 511 0"
        and env = "\<lparr>date_now = 0, random_scaled = 0\<rparr>" and handle = 1
        and cipService = READ_TAG and cipData = "[1, 0]"
        and senderContext = "Some [1, 2, 3, 4, 5, 6, 7, 8]" and f = IHF_false] 3
    unfolding words by simp
  have "\<exists>message. buildSendRRData \<lparr>date_now = 0, random_scaled = 0\<rparr> 1 READ_TAG [0x91, 1, 0x41]
            [1, 0] (Some [1, 2, 3, 4, 5, 6, 7, 8]) (IHF_number 5000) = Inr message
          \<and> unat (message ! 31) = length (pad_path [0x91, 1, 0x41]) div 2"
    using build_path_limits [where cipPath = "[0x91, 1, 0x41]"
        and env = "\<lparr>date_now = 0, random_scaled = 0\<rparr>" and handle = 1
        and cipService = READ_TAG and cipData = "[1, 0]"
        and ctx = "[1, 2, 3, 4, 5, 6, 7, 8]" and f = "IHF_number 5000"] 5
    by blast
  then have w4: "\<exists>message. buildSendRRData \<lparr>date_now = 0, random_scaled = 0\<rparr> 1 READ_TAG
            [0x91, 1, 0x41] [1, 0] (Some [1, 2, 3, 4, 5, 6, 7, 8]) (IHF_number 5000) = Inr message
          \<and> unat (message ! 31) = 2"
    unfolding 4 .
  show ?thesis
    using w1 w2 w3 w4 by blast
qed

subsection \<open>The connection: disconnecting, and what follows\<close>

lemma readTag_not_connected:
  "\<not> connectedFlag s \<Longrightarrow>
   readTag P W s tagName elementCount pathFormat useMessageRouter f = Some (Inl NotConnectedToPLC, s)"
  by (simp add: readTag_def)

lemma writeTag_not_connected:
  "\<not> connectedFlag s \<Longrightarrow>
   writeTag P W s tagName v dataType elementCount = Some (Inl NotConnectedToPLC, s)"
  by (simp add: writeTag_def)

lemma closeSocket_fields [simp]:
  "\<not> connectedFlag (closeSocket s)" "sessionHandle (closeSocket s) = 0"
  "socket (closeSocket s) = None" "wire (closeSocket s) = wire s"
  by (simp_all add: closeSocket_def)

lemma run_Cons [simp]: "run (a # actions) s = run actions (do_action a s)"
  by (simp add: run_def)

lemma run_Nil [simp]: "run [] s = s"
  by (simp add: run_def)

lemma handleData_connectedFlag:
  "\<not> registers data \<Longrightarrow> connectedFlag (handleData s data) = connectedFlag s"
  by (auto simp: handleData_def registers_def emit_error_def split: sum.splits)

lemma run_handler_connectedFlag:
  assumes "\<not> connectedFlag s" and "\<And>data. e = SocketData data \<Longrightarrow> \<not> registers data"
  shows "\<not> connectedFlag (run_handler e s)"
  using assms
  by (cases e)
    (auto simp: run_handler_def handleData_connectedFlag registerSession_def on_socket_error_def
       emit_error_def on_socket_close_def on_socket_timeout_def on_request_timeout_def
       on_disconnect_timer_def split: sum.splits option.splits)

lemma do_action_connectedFlag:
  assumes "\<not> connectedFlag s" and "\<And>data. a = Handler (SocketData data) \<Longrightarrow> \<not> registers data"
  shows "\<not> connectedFlag (do_action a s)"
proof (cases a)
  case (Handler e)
  thus ?thesis using assms run_handler_connectedFlag [of s e] by (simp add: do_action_def)
qed (use assms(1) in \<open>auto simp: do_action_def connect_def disconnect_def sendRequest_def
       setTimeout_def on_error_def split: option.splits\<close>)

lemma run_connectedFlag:
  "\<not> connectedFlag s \<Longrightarrow> (\<And>data. Handler (SocketData data) \<in> set actions \<Longrightarrow> \<not> registers data)
   \<Longrightarrow> \<not> connectedFlag (run actions s)"
proof (induction actions arbitrary: s)
  case Nil
  thus ?case by simp
next
  case (Cons a actions)
  have "\<not> connectedFlag (do_action a s)"
    using Cons.prems by (intro do_action_connectedFlag) auto
  thus ?case using Cons.IH [of "do_action a s"] Cons.prems(2) by simp
qed

lemma run_handler_closeTimers:
  "e \<noteq> DisconnectTimer \<Longrightarrow> closeTimers (run_handler e s) = closeTimers s"
  by (cases e)
    (auto simp: run_handler_def handleData_def registerSession_def on_socket_error_def
       emit_error_def on_socket_close_def on_socket_timeout_def on_request_timeout_def
       split: sum.splits option.splits)

lemma do_action_closeTimers:
  "a \<noteq> Handler DisconnectTimer \<Longrightarrow> closeTimers s \<le> closeTimers (do_action a s)"
  by (cases a)
    (auto simp: do_action_def run_handler_closeTimers connect_def disconnect_def closeSocket_def
       sendRequest_def setTimeout_def on_error_def split: option.splits sum.splits)

lemma run_closeTimers:
  "Handler DisconnectTimer \<notin> set actions \<Longrightarrow> closeTimers s \<le> closeTimers (run actions s)"
proof (induction actions arbitrary: s)
  case Nil
  thus ?case by simp
next
  case (Cons a actions)
  have "closeTimers s \<le> closeTimers (do_action a s)"
    using Cons.prems by (intro do_action_closeTimers) auto
  also have "\<dots> \<le> closeTimers (run actions (do_action a s))"
    using Cons.prems by (intro Cons.IH) auto
  finally show ?case by simp
qed

lemma disconnect_timer_fires:
  "0 < closeTimers t \<Longrightarrow> \<not> processEnded t \<Longrightarrow>
   run_handler DisconnectTimer t = closeSocket (t\<lparr>closeTimers := closeTimers t - 1\<rparr>)"
  by (simp add: run_handler_def on_disconnect_timer_def)

lemma buildUnregisterSession_ok:
  "0 \<le> handle \<Longrightarrow> handle < 4294967296 \<Longrightarrow> \<exists>message. buildUnregisterSession handle = Inr message"
  unfolding buildUnregisterSession_def UNREGISTER_SESSION_def
  by (rule buildEIPHeader_ok) simp_all

lemma buildUnregisterSession_fails:
  "handle < 0 \<or> 4294967296 \<le> handle \<Longrightarrow> \<exists>e. buildUnregisterSession handle = Inl e"
  by (auto simp: buildUnregisterSession_def UNREGISTER_SESSION_def buildEIPHeader_def
      toUInt16LE_def toUInt32LE_def writeUIntLE_def)

lemma disconnect_not_ready:
  "\<not> connectedFlag s \<or> socket s = None \<Longrightarrow> disconnect s = (Resolved (), s)"
  by (auto simp: disconnect_def split: option.splits)

lemma disconnect_ready:
  assumes "connectedFlag s" "socket s = Some k"
  shows "(sessionHandle s \<noteq> 0 \<and> 0 \<le> sessionHandle s \<and> sessionHandle s < 4294967296 \<longrightarrow>
            (\<exists>message. buildUnregisterSession (sessionHandle s) = Inr message
               \<and> disconnect s = (Pending, s\<lparr>wire := wire s @ [(k, message)],
                                            closeTimers := Suc (closeTimers s)\<rparr>)))
       \<and> (sessionHandle s \<le> 0 \<or> 4294967296 \<le> sessionHandle s \<longrightarrow>
            disconnect s = (Resolved (), closeSocket s))"
proof (intro conjI impI)
  assume h: "sessionHandle s \<noteq> 0 \<and> 0 \<le> sessionHandle s \<and> sessionHandle s < 4294967296"
  then obtain message where "buildUnregisterSession (sessionHandle s) = Inr message"
    using buildUnregisterSession_ok [of "sessionHandle s"] by auto
  thus "\<exists>message. buildUnregisterSession (sessionHandle s) = Inr message
               \<and> disconnect s = (Pending, s\<lparr>wire := wire s @ [(k, message)],
                                            closeTimers := Suc (closeTimers s)\<rparr>)"
    using assms h by (simp add: disconnect_def)
next
  assume h: "sessionHandle s \<le> 0 \<or> 4294967296 \<le> sessionHandle s"
  show "disconnect s = (Resolved (), closeSocket s)"
  proof (cases "sessionHandle s = 0")
    case True
    thus ?thesis using assms by (simp add: disconnect_def)
  next
    case False
    then obtain e where "buildUnregisterSession (sessionHandle s) = Inl e"
      using h buildUnregisterSession_fails [of "sessionHandle s"] by auto
    thus ?thesis using assms False by (simp add: disconnect_def)
  qed
qed

lemma disconnect_pending_timer:
  assumes "fst (disconnect s) = Pending"
  shows "0 < closeTimers (snd (disconnect s))"
  using assms by (auto simp: disconnect_def split: option.splits if_splits sum.splits)

lemma disconnect_resolved_ready:
  assumes "connectedFlag s" "socket s = Some k" "fst (disconnect s) = Resolved ()"
  shows "snd (disconnect s) = closeSocket s"
  using assms by (auto simp: disconnect_def split: if_splits sum.splits)

text \<open>
  Claim C8, as the code has it. \<open>sendRequest\<close> is rejected at once with the not-connected
  error whenever the flag \<open>connected\<close> is false, and leaves the state as it is.

  \<open>disconnect()\<close> called while the flag is false, or while there is no socket (state \<open>u\<close>),
  is resolved at once and changes nothing. As long as the flag is false, that is, through
  any later calls and events (\<open>later\<close>) among which no answer to a RegisterSession that
  succeeded arrives, \<open>isConnected()\<close> is false and \<open>readTag\<close> and \<open>writeTag\<close>, with any
  arguments, fail with the driver's not-connected error and leave the state, and so the
  list of messages written, unchanged.

  \<open>disconnect()\<close> called on a connected connection that has a socket (state \<open>s\<close>) writes
  UnregisterSession to that socket and arms its timer when the session handle is a
  32-bit value other than 0, its promise pending; otherwise it closes the socket and is
  resolved at once. The timer stays armed through any calls and events (\<open>actions\<close>) other
  than the firing of such a timer. When the promise is resolved, at once or by the timer
  firing after those calls and events in a process that has not ended (state \<open>closed\<close>),
  \<open>isConnected()\<close> is false, the session handle is 0, the socket is gone, and from then
  on \<open>readTag\<close> and \<open>writeTag\<close> fail in the same way, again through any later calls and
  events without an answer to a RegisterSession that succeeded.
\<close>

theorem disconnect_then_not_connected:
  "(\<not> connectedFlag u \<longrightarrow> sendRequest u message = (Rejected NotConnected, u))
   \<and> (\<not> connectedFlag u \<or> socket u = None \<longrightarrow> disconnect u = (Resolved (), u))
   \<and> (\<not> connectedFlag u
        \<and> (\<forall>data. Handler (SocketData data) \<in> set later \<longrightarrow> \<not> registers data) \<longrightarrow>
          \<not> isConnected (run later u)
          \<and> readTag P W (run later u) tagName elementCount pathFormat useMessageRouter f
              = Some (Inl NotConnectedToPLC, run later u)
          \<and> writeTag P W (run later u) tagName v dataType elementCount
              = Some (Inl NotConnectedToPLC, run later u))
   \<and> (connectedFlag s \<and> socket s = Some k \<longrightarrow>
        (sessionHandle s \<noteq> 0 \<and> 0 \<le> sessionHandle s \<and> sessionHandle s < 4294967296 \<longrightarrow>
           (\<exists>unregister. buildUnregisterSession (sessionHandle s) = Inr unregister
              \<and> disconnect s = (Pending, s\<lparr>wire := wire s @ [(k, unregister)],
                                           closeTimers := Suc (closeTimers s)\<rparr>)))
        \<and> (sessionHandle s \<le> 0 \<or> 4294967296 \<le> sessionHandle s \<longrightarrow>
             disconnect s = (Resolved (), closeSocket s))
        \<and> (fst (disconnect s) = Pending \<and> Handler DisconnectTimer \<notin> set actions \<longrightarrow>
             0 < closeTimers (run actions (snd (disconnect s))))
        \<and> (let closed = (if fst (disconnect s) = Resolved () then snd (disconnect s)
                        else run_handler DisconnectTimer (run actions (snd (disconnect s))))
           in (fst (disconnect s) = Resolved ()
                 \<or> 0 < closeTimers (run actions (snd (disconnect s)))
                    \<and> \<not> processEnded (run actions (snd (disconnect s)))) \<longrightarrow>
               \<not> isConnected closed \<and> getSessionHandle closed = 0 \<and> socket closed = None
               \<and> ((\<forall>data. Handler (SocketData data) \<in> set later \<longrightarrow> \<not> registers data) \<longrightarrow>
                     \<not> isConnected (run later closed)
                     \<and> readTag P W (run later closed) tagName elementCount pathFormat
                          useMessageRouter f
                         = Some (Inl NotConnectedToPLC, run later closed)
                     \<and> writeTag P W (run later closed) tagName v dataType elementCount
                         = Some (Inl NotConnectedToPLC, run later closed))))"
proof -
  have stays: "\<not> isConnected (run later x)
      \<and> readTag P W (run later x) tagName elementCount pathFormat useMessageRouter f
          = Some (Inl NotConnectedToPLC, run later x)
      \<and> writeTag P W (run later x) tagName v dataType elementCount
          = Some (Inl NotConnectedToPLC, run later x)"
    if n: "\<not> connectedFlag x"
      and d: "\<forall>data. Handler (SocketData data) \<in> set later \<longrightarrow> \<not> registers data" for x
  proof -
    have c: "\<not> connectedFlag (run later x)"
      using n d by (intro run_connectedFlag) auto
    show ?thesis
      using c readTag_not_connected [OF c] writeTag_not_connected [OF c]
      by (simp add: isConnected_def)
  qed
  have 1: "sendRequest u message = (Rejected NotConnected, u)" if "\<not> connectedFlag u"
    using that by (simp add: sendRequest_def)
  have 2: "disconnect u = (Resolved (), u)" if "\<not> connectedFlag u \<or> socket u = None"
    using that by (rule disconnect_not_ready)
  have 4: "0 < closeTimers (run actions (snd (disconnect s)))"
    if "fst (disconnect s) = Pending \<and> Handler DisconnectTimer \<notin> set actions"
    using that disconnect_pending_timer [of s] run_closeTimers [of actions "snd (disconnect s)"]
    by force
  have 5: "let closed = (if fst (disconnect s) = Resolved () then snd (disconnect s)
                        else run_handler DisconnectTimer (run actions (snd (disconnect s))))
           in (fst (disconnect s) = Resolved ()
                 \<or> 0 < closeTimers (run actions (snd (disconnect s)))
                    \<and> \<not> processEnded (run actions (snd (disconnect s)))) \<longrightarrow>
               \<not> isConnected closed \<and> getSessionHandle closed = 0 \<and> socket closed = None
               \<and> ((\<forall>data. Handler (SocketData data) \<in> set later \<longrightarrow> \<not> registers data) \<longrightarrow>
                     \<not> isConnected (run later closed)
                     \<and> readTag P W (run later closed) tagName elementCount pathFormat
                          useMessageRouter f
                         = Some (Inl NotConnectedToPLC, run later closed)
                     \<and> writeTag P W (run later closed) tagName v dataType elementCount
                         = Some (Inl NotConnectedToPLC, run later closed))"
    if r: "connectedFlag s \<and> socket s = Some k"
  proof -
    define closed where "closed = (if fst (disconnect s) = Resolved () then snd (disconnect s)
                        else run_handler DisconnectTimer (run actions (snd (disconnect s))))"
    have "\<not> connectedFlag closed \<and> sessionHandle closed = 0 \<and> socket closed = None"
      if c: "fst (disconnect s) = Resolved ()
                 \<or> 0 < closeTimers (run actions (snd (disconnect s)))
                    \<and> \<not> processEnded (run actions (snd (disconnect s)))"
    proof (cases "fst (disconnect s) = Resolved ()")
      case True
      hence "closed = closeSocket s"
        using r disconnect_resolved_ready [of s k] by (simp add: closed_def)
      thus ?thesis by simp
    next
      case False
      hence "closed = closeSocket ((run actions (snd (disconnect s)))
                      \<lparr>closeTimers := closeTimers (run actions (snd (disconnect s))) - 1\<rparr>)"
        using c disconnect_timer_fires [of "run actions (snd (disconnect s))"]
        by (simp add: closed_def)
      thus ?thesis by simp
    qed
    hence "(fst (disconnect s) = Resolved ()
                 \<or> 0 < closeTimers (run actions (snd (disconnect s)))
                    \<and> \<not> processEnded (run actions (snd (disconnect s)))) \<longrightarrow>
               \<not> isConnected closed \<and> getSessionHandle closed = 0 \<and> socket closed = None
               \<and> ((\<forall>data. Handler (SocketData data) \<in> set later \<longrightarrow> \<not> registers data) \<longrightarrow>
                     \<not> isConnected (run later closed)
                     \<and> readTag P W (run later closed) tagName elementCount pathFormat
                          useMessageRouter f
                         = Some (Inl NotConnectedToPLC, run later closed)
                     \<and> writeTag P W (run later closed) tagName v dataType elementCount
                         = Some (Inl NotConnectedToPLC, run later closed))"
      using stays [of closed] by (simp add: isConnected_def getSessionHandle_def)
    thus ?thesis unfolding Let_def closed_def .
  qed
  show ?thesis
    using 1 2 stays [of u] disconnect_ready [of s k] 4 5 by blast
qed

theorem disconnect_then_not_connected_witness:
  "\<not> connectedFlag initial_connection
   \<and> sendRequest initial_connection [1, 2, 3] = (Rejected NotConnected, initial_connection)
   \<and> disconnect initial_connection = (Resolved (), initial_connection)
   \<and> \<not> isConnected (run [CallConnect, Handler SocketConnect, Handler (SocketData bool_response)]
                        initial_connection)
   \<and> readTag sample_platform sample_world
        (run [CallConnect, Handler SocketConnect, Handler (SocketData bool_response)]
           initial_connection) ''TestBool'' 1 ''default'' False IHF_false
       = Some (Inl NotConnectedToPLC,
               run [CallConnect, Handler SocketConnect, Handler (SocketData bool_response)]
                 initial_connection)
   \<and> connectedFlag session_state \<and> socket session_state = Some 0
   \<and> fst (disconnect session_state) = Pending
   \<and> wire (snd (disconnect session_state))
       = wire session_state @ [(0, [0x66, 0, 0, 0, 7, 0, 0, 0, 0, 0, 0, 0, 0, 0, 0, 0, 0, 0, 0, 0,
                                    0, 0, 0, 0])]
   \<and> 0 < closeTimers (run [Handler (SocketData bool_response), CallSetTimeout 1000]
                        (snd (disconnect session_state)))
   \<and> \<not> isConnected (run_handler DisconnectTimer
          (run [Handler (SocketData bool_response), CallSetTimeout 1000]
             (snd (disconnect session_state))))
   \<and> getSessionHandle (run_handler DisconnectTimer
          (run [Handler (SocketData bool_response), CallSetTimeout 1000]
             (snd (disconnect session_state)))) = 0
   \<and> readTag sample_platform sample_world
        (run [CallConnect, Handler SocketConnect, Handler (SocketData bool_response)]
          (run_handler DisconnectTimer
            (run [Handler (SocketData bool_response), CallSetTimeout 1000]
               (snd (disconnect session_state))))) ''TestBool'' 1 ''default'' False IHF_false
       = Some (Inl NotConnectedToPLC,
               run [CallConnect, Handler SocketConnect, Handler (SocketData bool_response)]
                 (run_handler DisconnectTimer
                   (run [Handler (SocketData bool_response), CallSetTimeout 1000]
                      (snd (disconnect session_state)))))
   \<and> writeTag sample_platform sample_world
        (run [CallConnect, Handler SocketConnect, Handler (SocketData bool_response)]
          (run_handler DisconnectTimer
            (run [Handler (SocketData bool_response), CallSetTimeout 1000]
               (snd (disconnect session_state))))) ''TestBool'' (JBoolean True) None 1
       = Some (Inl NotConnectedToPLC,
               run [CallConnect, Handler SocketConnect, Handler (SocketData bool_response)]
                 (run_handler DisconnectTimer
                   (run [Handler (SocketData bool_response), CallSetTimeout 1000]
                      (snd (disconnect session_state)))))"
proof -
  let ?later = "[CallConnect, Handler SocketConnect, Handler (SocketData bool_response)]"
  let ?actions = "[Handler (SocketData bool_response), CallSetTimeout 1000]"
  let ?closed = "run_handler DisconnectTimer (run ?actions (snd (disconnect session_state)))"
  have n: "\<not> connectedFlag initial_connection"
    by (simp add: initial_connection_def)
  have b: "\<not> registers bool_response"
    by code_simp
  have d: "\<forall>data. Handler (SocketData data) \<in> set ?later \<longrightarrow> \<not> registers data"
    using b by simp
  have c: "connectedFlag session_state \<and> socket session_state = Some 0"
    by code_simp
  have p: "fst (disconnect session_state) = Pending"
    by code_simp
  have w: "wire (snd (disconnect session_state))
       = wire session_state @ [(0, [0x66, 0, 0, 0, 7, 0, 0, 0, 0, 0, 0, 0, 0, 0, 0, 0, 0, 0, 0, 0,
                                    0, 0, 0, 0])]"
    by code_simp
  have t: "Handler DisconnectTimer \<notin> set ?actions"
    by simp
  have e: "\<not> processEnded (run ?actions (snd (disconnect session_state)))"
    by code_simp
  note inst = disconnect_then_not_connected [where u = initial_connection
      and message = "[1, 2, 3]" and later = ?later and s = session_state and k = 0
      and actions = ?actions and P = sample_platform and W = sample_world
      and tagName = "''TestBool''" and elementCount = 1 and pathFormat = "''default''"
      and useMessageRouter = False and f = IHF_false and v = "JBoolean True" and dataType = None]
  have 1: "sendRequest initial_connection [1, 2, 3] = (Rejected NotConnected, initial_connection)
      \<and> disconnect initial_connection = (Resolved (), initial_connection)
      \<and> \<not> isConnected (run ?later initial_connection)
      \<and> readTag sample_platform sample_world (run ?later initial_connection) ''TestBool'' 1
           ''default'' False IHF_false
          = Some (Inl NotConnectedToPLC, run ?later initial_connection)"
    using inst n d by blast
  have 2: "0 < closeTimers (run ?actions (snd (disconnect session_state)))"
    using inst c p t by blast
  have "\<not> isConnected ?closed \<and> getSessionHandle ?closed = 0 \<and> socket ?closed = None
     \<and> ((\<forall>data. Handler (SocketData data) \<in> set ?later \<longrightarrow> \<not> registers data) \<longrightarrow>
           \<not> isConnected (run ?later ?closed)
           \<and> readTag sample_platform sample_world (run ?later ?closed) ''TestBool'' 1 ''default''
                False IHF_false
               = Some (Inl NotConnectedToPLC, run ?later ?closed)
           \<and> writeTag sample_platform sample_world (run ?later ?closed) ''TestBool''
                (JBoolean True) None 1
               = Some (Inl NotConnectedToPLC, run ?later ?closed))"
    using inst [THEN conjunct2, THEN conjunct2, THEN conjunct2, rule_format, OF c,
        THEN conjunct2, THEN conjunct2, THEN conjunct2] p 2 e
    by (simp add: Let_def)
  hence 3: "\<not> isConnected ?closed \<and> getSessionHandle ?closed = 0
     \<and> readTag sample_platform sample_world (run ?later ?closed) ''TestBool'' 1 ''default''
          False IHF_false
         = Some (Inl NotConnectedToPLC, run ?later ?closed)
     \<and> writeTag sample_platform sample_world (run ?later ?closed) ''TestBool''
          (JBoolean True) None 1
         = Some (Inl NotConnectedToPLC, run ?later ?closed)"
    using d by blast
  show ?thesis
    using n 1 c p w 2 3 by blast
qed

text \<open>
  The claim as stated fails in two ways. \<open>disconnect()\<close> called while \<open>connect()\<close> is in
  progress is resolved at once and cancels nothing: when the socket has connected and
  the answer to RegisterSession has arrived, the connection is connected with session
  handle 7, and \<open>readTag\<close> writes its request and returns the value. And \<open>disconnect()\<close>
  called between the \<open>'error'\<close> and the \<open>'close'\<close> event of the socket is resolved at once
  with the session handle still 7.
\<close>

theorem disconnect_while_connecting:
  "disconnect (snd (connect initial_connection)) = (Resolved (), snd (connect initial_connection))
   \<and> run [Handler SocketConnect, Handler (SocketData register_reply)]
        (snd (disconnect (snd (connect initial_connection)))) = session_state
   \<and> isConnected session_state \<and> getSessionHandle session_state = 7
   \<and> map_option fst (readTag sample_platform sample_world session_state ''TestBool'' 1 ''default''
        False IHF_false) = Some (Inr (Single (JBoolean True)))
   \<and> length (wire (snd (the (readTag sample_platform sample_world session_state ''TestBool'' 1
        ''default'' False IHF_false)))) = Suc (length (wire session_state))
   \<and> fst (disconnect (run [CallOnError, Handler SocketError] session_state)) = Resolved ()
   \<and> \<not> isConnected (snd (disconnect (run [CallOnError, Handler SocketError] session_state)))
   \<and> getSessionHandle (snd (disconnect (run [CallOnError, Handler SocketError] session_state))) = 7"
  by code_simp

text \<open>
  Claim C10. \<open>connect()\<close> on a connection that is already connected is resolved at once
  and changes nothing: the state it returns is the state it was called in, so no message
  has been written, no socket made, and the connected flag, the session handle and all
  other fields are as before.
\<close>


theorem connect_when_connected:
  "connectedFlag s \<Longrightarrow>
   connect s = (Resolved (), s)
   \<and> wire (snd (connect s)) = wire s \<and> socketsMade (snd (connect s)) = socketsMade s
   \<and> socket (snd (connect s)) = socket s
   \<and> connectedFlag (snd (connect s)) = connectedFlag s
   \<and> sessionHandle (snd (connect s)) = sessionHandle s"
  by (simp add: connect_def)

theorem connect_when_connected_witness:
  "connectedFlag session_state \<and> connect session_state = (Resolved (), session_state)"
proof -
  have c: "connectedFlag session_state"
    by code_simp
  show ?thesis
    using connect_when_connected [OF c] c by simp
qed

subsection \<open>Reading several tags\<close>














text \<open>Reading an array: the offsets are sums of doubles. Over two bytes read as twenty
  elements the size of an element is the double nearest to 0.1, and ten of them add up
  to less than 1, so the eleventh element is read at an offset that is not an integer.\<close>

lemma decodeArray_sums_doubles:
  "decodeArray sample_platform 0xC6 [0x0A, 0x0B] (to_double (2 / 20)) 0 20
     = Inr (JNumber (Fin 10) # replicate 19 JUndefined)"
  by code_simp

end
